theory Spec2Isabelle
  imports Complex_Main "HOL-Library.Sublist"
begin

section \<open>JavaScript values\<close>

text \<open>
  The orchestrator is written in JavaScript, so configuration objects, parsed JSON and
  event payloads are dynamically typed. They are modelled by one datatype of values.

  A number is an IEEE 754 double: \<open>Finite neg m x\<close> is the number of sign \<open>neg\<close> and
  magnitude \<open>m * 2 ^ x\<close>, where \<open>m = 0\<close> and \<open>x = 0\<close> for the two zeros,
  \<open>2 ^ 52 \<le> m < 2 ^ 53\<close> for a normal number and \<open>m < 2 ^ 52\<close> with
  \<open>x = - 1074\<close> for a subnormal one, so that equal doubles are equal terms.

  An object is the list of its own properties in insertion order, each key once.

  A string is a byte string: the UTF-8 encoding of the JavaScript string, in which a
  surrogate that is not part of a pair is encoded like any other code unit (three
  bytes) and a surrogate pair always as the one code point it stands for (four bytes),
  so that equal strings have equal encodings.
\<close>

datatype number = Finite bool int int | Infinite bool | NaN

datatype jsv =
    JUndefined
  | JNull
  | JBool bool
  | JNum number
  | JStr string
  | JArr "jsv list"
  | JObj "(string \<times> jsv) list"

datatype js_error =
    TypeError
  | SyntaxError
  | Error string

text \<open>Zero, minus zero and \<^verbatim>\<open>NaN\<close> are the falsy numbers.\<close>

fun nonzero :: "number \<Rightarrow> bool" where
  "nonzero (Finite neg m x) = (m \<noteq> 0)"
| "nonzero (Infinite neg) = True"
| "nonzero NaN = False"

fun truthy :: "jsv \<Rightarrow> bool" where
  "truthy JUndefined = False"
| "truthy JNull = False"
| "truthy (JBool b) = b"
| "truthy (JNum n) = nonzero n"
| "truthy (JStr s) = (s \<noteq> [])"
| "truthy (JArr xs) = True"
| "truthy (JObj ms) = True"

text \<open>\<^verbatim>\<open>a || b\<close> on values, and on optional strings (\<open>None\<close> is \<^verbatim>\<open>undefined\<close>).\<close>

definition js_or :: "jsv \<Rightarrow> jsv \<Rightarrow> jsv" where
  "js_or a b = (if truthy a then a else b)"

fun str_truthy :: "string option \<Rightarrow> bool" where
  "str_truthy None = False"
| "str_truthy (Some s) = (s \<noteq> [])"

definition str_or :: "string option \<Rightarrow> string option \<Rightarrow> string option" where
  "str_or a b = (if str_truthy a then a else b)"

text \<open>
  Property access: \<^verbatim>\<open>v?.k\<close> is \<open>js_prop\<close>, and \<^verbatim>\<open>v.k\<close>, which raises a
  \<^verbatim>\<open>TypeError\<close> when \<open>v\<close> is \<^verbatim>\<open>null\<close> or \<^verbatim>\<open>undefined\<close>, is \<open>js_get\<close>.
  The keys that the code reads are no properties of the prototype of any value.
\<close>

definition nullish :: "jsv \<Rightarrow> bool" where
  "nullish v = (v = JUndefined \<or> v = JNull)"

definition js_coalesce :: "jsv \<Rightarrow> jsv \<Rightarrow> jsv" where
  "js_coalesce a b = (if nullish a then b else a)"

fun js_prop :: "jsv \<Rightarrow> string \<Rightarrow> jsv" where
  "js_prop (JObj ms) k = (case map_of ms k of Some v \<Rightarrow> v | None \<Rightarrow> JUndefined)"
| "js_prop v k = JUndefined"

definition js_get :: "jsv \<Rightarrow> string \<Rightarrow> js_error + jsv" where
  "js_get v k = (if nullish v then Inl TypeError else Inr (js_prop v k))"

section \<open>Numbers\<close>

text \<open>
  The conversion of a decimal literal to a double (round to nearest, ties to even, as
  \<^verbatim>\<open>JSON.parse\<close> does) and of a double to a string (\<^verbatim>\<open>Number::toString\<close>: the
  shortest decimal that reads back as the same double). Fractions are pairs of a
  numerator and a positive denominator, compared by cross multiplication.
\<close>

function ipow :: "int \<Rightarrow> int \<Rightarrow> int" where
  "ipow b e =
     (if e \<le> 0 then 1
      else if even e then ipow (b * b) (e div 2)
      else b * ipow (b * b) (e div 2))"
  by auto
termination
  by (relation "measure (\<lambda>(b, e). nat e)") auto

declare ipow.simps [simp del]

function bit_length :: "int \<Rightarrow> int" where
  "bit_length n = (if n \<le> 0 then 0 else 1 + bit_length (n div 2))"
  by auto
termination
  by (relation "measure nat") auto

declare bit_length.simps [simp del]

function digit_count :: "int \<Rightarrow> int" where
  "digit_count n = (if n \<le> 0 then 0 else 1 + digit_count (n div 10))"
  by auto
termination
  by (relation "measure nat") auto

declare digit_count.simps [simp del]

text \<open>The fraction \<open>f\<close> divided by \<open>base\<close> to the power \<open>e\<close>.\<close>

definition scaled :: "int \<Rightarrow> int \<times> int \<Rightarrow> int \<Rightarrow> int \<times> int" where
  "scaled base f e =
     (if 0 \<le> e then (fst f, snd f * ipow base e) else (fst f * ipow base (- e), snd f))"

text \<open>The \<open>c\<close> with \<open>2 ^ c \<le> f < 2 ^ (c + 1)\<close>, for a positive fraction.\<close>

definition floor_log2 :: "int \<times> int \<Rightarrow> int" where
  "floor_log2 f =
     (let c = bit_length (fst f) - bit_length (snd f);
          g = scaled 2 f c
      in if snd g \<le> fst g then c else c - 1)"

definition round_half_even :: "int \<times> int \<Rightarrow> int" where
  "round_half_even f =
     (let q = fst f div snd f; r = fst f mod snd f
      in if 2 * r < snd f then q
         else if snd f < 2 * r then q + 1
         else if even q then q else q + 1)"

text \<open>
  The double nearest to a fraction that is not negative: 53 bits of mantissa, the
  exponent of a subnormal number held at its minimum, and overflow to infinity.
\<close>

definition round_double :: "bool \<Rightarrow> int \<times> int \<Rightarrow> number" where
  "round_double neg f =
     (if fst f \<le> 0 then Finite neg 0 0
      else
        (let x = max (floor_log2 f) (- 1022) - 52;
             m = round_half_even (scaled 2 f x)
         in if m = 0 then Finite neg 0 0
            else if m = 9007199254740992 then
              (if 971 \<le> x then Infinite neg else Finite neg 4503599627370496 (x + 1))
            else if 971 < x then Infinite neg
            else Finite neg m x))"

text \<open>The double that the decimal \<open>s * 10 ^ t\<close> denotes.\<close>

definition decimal_value :: "bool \<Rightarrow> int \<Rightarrow> int \<Rightarrow> number" where
  "decimal_value neg s t = round_double neg (scaled 10 (s, 1) (- t))"

text \<open>The \<open>n\<close> with \<open>10 ^ (n - 1) \<le> f < 10 ^ n\<close>, for a positive fraction.\<close>

definition decimal_exponent :: "int \<times> int \<Rightarrow> int" where
  "decimal_exponent f =
     (let c = digit_count (fst f) - digit_count (snd f);
          g = scaled 10 f c
      in if snd g \<le> fst g then c + 1 else c)"

text \<open>
  The decimal of \<open>k\<close> digits that reads back as the positive double \<open>d\<close>, whose value
  is the fraction \<open>f\<close>, if there is one: its digits \<open>s\<close> and the \<open>n\<close> that places its
  decimal point. Only the two decimals of \<open>k\<close> digits around \<open>f\<close> qualify; of two that
  read back, the nearer to \<open>f\<close> is taken, and the even one when they are as near.
\<close>

definition candidate :: "number \<Rightarrow> int \<times> int \<Rightarrow> int \<Rightarrow> int \<Rightarrow> (int \<times> int) option" where
  "candidate d f n k =
     (let g = scaled 10 f (n - k);
          lo = fst g div snd g;
          lo_ok = (decimal_value False lo (n - k) = d);
          hi_ok = (decimal_value False (lo + 1) (n - k) = d);
          hi = (if lo + 1 = ipow 10 k then (ipow 10 (k - 1), n + 1) else (lo + 1, n))
      in if lo_ok \<and> hi_ok then
           (if 2 * fst g < (2 * lo + 1) * snd g then Some (lo, n)
            else if (2 * lo + 1) * snd g < 2 * fst g then Some hi
            else if even lo then Some (lo, n) else Some hi)
         else if lo_ok then Some (lo, n)
         else if hi_ok then Some hi
         else None)"

text \<open>The first number of digits that has such a decimal; 17 digits always do.\<close>

fun shortest :: "number \<Rightarrow> int \<times> int \<Rightarrow> int \<Rightarrow> int list \<Rightarrow> int \<times> int" where
  "shortest d f n [] = (fst (scaled 10 f (n - 17)) div snd (scaled 10 f (n - 17)), n)"
| "shortest d f n (k # ks) =
     (if candidate d f n k = None then shortest d f n ks
      else the (candidate d f n k))"

function decimal :: "int \<Rightarrow> string" where
  "decimal n =
     (if n < 10 then [char_of (48 + n)] else decimal (n div 10) @ [char_of (48 + n mod 10)])"
  by auto
termination
  by (relation "measure nat") auto

declare decimal.simps [simp del]

text \<open>
  \<^verbatim>\<open>Number::toString\<close> of the positive double \<open>m * 2 ^ x\<close>: plain digits while the
  decimal point lies within 21 digits, a fraction down to \<^verbatim>\<open>0.000001\<close>, and the
  exponent notation otherwise.
\<close>

definition positive_to_string :: "int \<Rightarrow> int \<Rightarrow> string" where
  "positive_to_string m x =
     (let f = scaled 2 (m, 1) (- x);
          (s, n) = shortest (round_double False f) f (decimal_exponent f)
                     [1, 2, 3, 4, 5, 6, 7, 8, 9, 10, 11, 12, 13, 14, 15, 16, 17];
          ds = decimal s;
          k = int (length ds)
      in if k \<le> n \<and> n \<le> 21 then ds @ replicate (nat (n - k)) (CHR ''0'')
         else if 0 < n \<and> n \<le> 21 then take (nat n) ds @ ''.'' @ drop (nat n) ds
         else if - 6 < n \<and> n \<le> 0 then ''0.'' @ replicate (nat (- n)) (CHR ''0'') @ ds
         else
           (let e = n - 1;
                es = (if e < 0 then ''-'' else ''+'') @ decimal \<bar>e\<bar>
            in if k = 1 then ds @ ''e'' @ es
               else take 1 ds @ ''.'' @ drop 1 ds @ ''e'' @ es))"

fun number_to_string :: "number \<Rightarrow> string" where
  "number_to_string NaN = ''NaN''"
| "number_to_string (Infinite neg) = (if neg then ''-Infinity'' else ''Infinity'')"
| "number_to_string (Finite neg m x) =
     (if m = 0 then ''0''
      else if neg then ''-'' @ positive_to_string m x
      else positive_to_string m x)"

section \<open>Strings\<close>

definition char_code :: "char \<Rightarrow> nat" where
  "char_code c = of_char c"

text \<open>
  The three bytes of a high and of a low surrogate, and the four bytes of the code
  point that a pair of them stands for.
\<close>

definition high_surrogate :: "char \<Rightarrow> char \<Rightarrow> char \<Rightarrow> bool" where
  "high_surrogate a b c =
     (a = CHR 0xED \<and> 0xA0 \<le> char_code b \<and> char_code b \<le> 0xAF
      \<and> 0x80 \<le> char_code c \<and> char_code c \<le> 0xBF)"

definition low_surrogate :: "char \<Rightarrow> char \<Rightarrow> char \<Rightarrow> bool" where
  "low_surrogate a b c =
     (a = CHR 0xED \<and> 0xB0 \<le> char_code b \<and> char_code b \<le> 0xBF
      \<and> 0x80 \<le> char_code c \<and> char_code c \<le> 0xBF)"

definition surrogate_pair :: "char \<Rightarrow> char \<Rightarrow> char \<Rightarrow> char \<Rightarrow> string" where
  "surrogate_pair b c e f =
     (let cp = 0x10000 + ((of_char b - 0xA0) * 64 + (of_char c - 0x80)) * 1024
                 + (of_char e - 0xB0) * 64 + (of_char f - 0x80) :: int
      in [char_of (0xF0 + cp div 262144), char_of (0x80 + (cp div 4096) mod 64),
          char_of (0x80 + (cp div 64) mod 64), char_of (0x80 + cp mod 64)])"

text \<open>
  Where a high surrogate comes to stand before a low one, the two are one code point:
  at the seam of a concatenation, and after an escape in a JSON string.
\<close>

fun merge_surrogates :: "string \<Rightarrow> string" where
  "merge_surrogates (a # b # c # d # e # f # r) =
     (if high_surrogate a b c \<and> low_surrogate d e f
      then surrogate_pair b c e f @ merge_surrogates r
      else a # merge_surrogates (b # c # d # e # f # r))"
| "merge_surrogates s = s"

definition js_concat :: "string \<Rightarrow> string \<Rightarrow> string" where
  "js_concat s t = merge_surrogates (s @ t)"

text \<open>
  The conversion to a string. For an object that has a property \<^verbatim>\<open>toString\<close> of
  its own it raises a \<^verbatim>\<open>TypeError\<close>: a parsed value is never callable, and
  \<^verbatim>\<open>Object.prototype.valueOf\<close> returns the object. For an array it is
  \<^verbatim>\<open>join(',')\<close>, in which \<^verbatim>\<open>null\<close> and \<^verbatim>\<open>undefined\<close> give the empty string.
\<close>

fun js_to_string :: "jsv \<Rightarrow> js_error + string"
  and js_join :: "string \<Rightarrow> jsv list \<Rightarrow> js_error + string" where
  "js_to_string JUndefined = Inr ''undefined''"
| "js_to_string JNull = Inr ''null''"
| "js_to_string (JBool b) = Inr (if b then ''true'' else ''false'')"
| "js_to_string (JNum n) = Inr (number_to_string n)"
| "js_to_string (JStr s) = Inr s"
| "js_to_string (JArr xs) = js_join '','' xs"
| "js_to_string (JObj ms) =
     (if ''toString'' \<in> fst ` set ms then Inl TypeError else Inr ''[object Object]'')"
| "js_join sep [] = Inr []"
| "js_join sep (x # xs) =
     (case (if nullish x then Inr [] else js_to_string x) of
        Inl e \<Rightarrow> Inl e
      | Inr s \<Rightarrow>
          if xs = [] then Inr s
          else (case js_join sep xs of
                  Inl e \<Rightarrow> Inl e
                | Inr r \<Rightarrow> Inr (js_concat s (js_concat sep r))))"

text \<open>
  \<^verbatim>\<open>Array.prototype.filter\<close> and \<^verbatim>\<open>map\<close> with a callback that may throw: the
  first exception ends the traversal.
\<close>

fun js_filter :: "(jsv \<Rightarrow> js_error + bool) \<Rightarrow> jsv list \<Rightarrow> js_error + jsv list" where
  "js_filter keep [] = Inr []"
| "js_filter keep (c # cs) =
     (case keep c of
        Inl e \<Rightarrow> Inl e
      | Inr b \<Rightarrow>
          (case js_filter keep cs of
             Inl e \<Rightarrow> Inl e
           | Inr kept \<Rightarrow> Inr (if b then c # kept else kept)))"

fun js_map :: "(jsv \<Rightarrow> js_error + jsv) \<Rightarrow> jsv list \<Rightarrow> js_error + jsv list" where
  "js_map g [] = Inr []"
| "js_map g (c # cs) =
     (case g c of
        Inl e \<Rightarrow> Inl e
      | Inr v \<Rightarrow> (case js_map g cs of Inl e \<Rightarrow> Inl e | Inr vs \<Rightarrow> Inr (v # vs)))"

section \<open>JSON.parse\<close>

text \<open>
  \<^verbatim>\<open>JSON.parse\<close> is a built-in of the language, modelled here after the JSON
  grammar (ECMA-404): a lexer from characters to tokens, then a pushdown automaton over
  the tokens. \<open>None\<close> is the \<^verbatim>\<open>SyntaxError\<close> that \<^verbatim>\<open>JSON.parse\<close> throws.
\<close>

datatype token =
    TLBrace | TRBrace | TLBrack | TRBrack | TColon | TComma
  | TString string | TNumber number | TTrue | TFalse | TNull

definition is_digit :: "char \<Rightarrow> bool" where
  "is_digit c = (48 \<le> char_code c \<and> char_code c \<le> 57)"

definition digit_val :: "char \<Rightarrow> nat" where
  "digit_val c = char_code c - 48"

definition digits_val :: "string \<Rightarrow> int" where
  "digits_val ds = foldl (\<lambda>n c. 10 * n + int (digit_val c)) 0 ds"

definition json_ws :: "char \<Rightarrow> bool" where
  "json_ws c = (c = CHR '' '' \<or> c = CHR 0x09 \<or> c = CHR 0x0A \<or> c = CHR 0x0D)"

definition num_char :: "char \<Rightarrow> bool" where
  "num_char c = (is_digit c \<or> c = CHR ''-'' \<or> c = CHR ''+'' \<or> c = CHR ''.''
                 \<or> c = CHR ''e'' \<or> c = CHR ''E'')"

text \<open>exponent part: [eE] [+-]? digits, to the end of the literal\<close>
definition parse_exponent :: "string \<Rightarrow> int option" where
  "parse_exponent s =
     (case s of
        [] \<Rightarrow> Some 0
      | e # r \<Rightarrow>
          if e = CHR ''e'' \<or> e = CHR ''E'' then
            (let (neg, ds) = (case r of
                                [] \<Rightarrow> (False, [])
                              | g # r' \<Rightarrow> if g = CHR ''-'' then (True, r')
                                         else if g = CHR ''+'' then (False, r')
                                         else (False, r))
             in if ds \<noteq> [] \<and> list_all is_digit ds
                then Some (if neg then - digits_val ds else digits_val ds)
                else None)
          else None)"

text \<open>
  A number literal: an optional minus sign, an integer part without a leading zero, an
  optional fraction and an optional exponent. Its value is the double nearest to the
  decimal that it spells.
\<close>

definition parse_number :: "string \<Rightarrow> number option" where
  "parse_number s =
     (let (neg, s1) = (case s of [] \<Rightarrow> (False, [])
                       | c # r \<Rightarrow> if c = CHR ''-'' then (True, r) else (False, s));
          ip = takeWhile is_digit s1;
          s2 = dropWhile is_digit s1;
          (fp, s3, frac_ok) =
             (case s2 of
                [] \<Rightarrow> ([], [], True)
              | d # r \<Rightarrow> if d = CHR ''.''
                         then (takeWhile is_digit r, dropWhile is_digit r, takeWhile is_digit r \<noteq> [])
                         else ([], s2, True))
      in if ip = [] \<or> (hd ip = CHR ''0'' \<and> length ip > 1) \<or> \<not> frac_ok then None
         else (case parse_exponent s3 of
                 None \<Rightarrow> None
               | Some e \<Rightarrow>
                   Some (decimal_value neg (digits_val (ip @ fp)) (e - int (length fp)))))"

definition hex_val :: "char \<Rightarrow> int option" where
  "hex_val c =
     (if is_digit c then Some (of_char c - 48)
      else if 97 \<le> char_code c \<and> char_code c \<le> 102 then Some (of_char c - 87)
      else if 65 \<le> char_code c \<and> char_code c \<le> 70 then Some (of_char c - 55)
      else None)"

definition hex4 :: "char \<Rightarrow> char \<Rightarrow> char \<Rightarrow> char \<Rightarrow> int option" where
  "hex4 a b c d =
     (case (hex_val a, hex_val b, hex_val c, hex_val d) of
        (Some w, Some x, Some y, Some z) \<Rightarrow> Some (((w * 16 + x) * 16 + y) * 16 + z)
      | _ \<Rightarrow> None)"

text \<open>The bytes of a code unit, which is below 0x10000.\<close>

definition utf8 :: "int \<Rightarrow> string" where
  "utf8 n =
     (if n < 0x80 then [char_of n]
      else if n < 0x800 then [char_of (0xC0 + n div 64), char_of (0x80 + n mod 64)]
      else [char_of (0xE0 + n div 4096), char_of (0x80 + (n div 64) mod 64),
            char_of (0x80 + n mod 64)])"

definition unescape :: "char \<Rightarrow> char option" where
  "unescape e =
     (if e = CHR 0x22 then Some (CHR 0x22)
      else if e = CHR 0x5C then Some (CHR 0x5C)
      else if e = CHR ''/'' then Some (CHR ''/'')
      else if e = CHR ''b'' then Some (CHR 0x08)
      else if e = CHR ''f'' then Some (CHR 0x0C)
      else if e = CHR ''n'' then Some (CHR 0x0A)
      else if e = CHR ''r'' then Some (CHR 0x0D)
      else if e = CHR ''t'' then Some (CHR 0x09)
      else None)"

fun lex_string :: "string \<Rightarrow> string \<Rightarrow> (string \<times> string) option" where
  "lex_string acc [] = None"
| "lex_string acc (c # cs) =
     (if c = CHR 0x22 then Some (merge_surrogates (rev acc), cs)
      else if c = CHR 0x5C then
        (case cs of
           [] \<Rightarrow> None
         | e # r \<Rightarrow>
             if e = CHR ''u'' then
               (case r of
                  h1 # h2 # h3 # h4 # r' \<Rightarrow>
                    (case hex4 h1 h2 h3 h4 of
                       None \<Rightarrow> None
                     | Some n \<Rightarrow> lex_string (rev (utf8 n) @ acc) r')
                | _ \<Rightarrow> None)
             else
               (case unescape e of
                  None \<Rightarrow> None
                | Some x \<Rightarrow> lex_string (x # acc) r))
      else if char_code c < 0x20 then None
      else lex_string (c # acc) cs)"


lemma lex_string_length:
  "lex_string acc cs = Some (s, rest) \<Longrightarrow> length rest < length cs"
proof (induction acc cs rule: lex_string.induct)
  case (1 acc)
  then show ?case by simp
next
  case (2 acc c cs)
  show ?case
  proof (cases "c = CHR 0x22")
    case True
    with 2(4) show ?thesis by simp
  next
    case nq: False
    show ?thesis
    proof (cases "c = CHR 0x5C")
      case bs: True
      show ?thesis
      proof (cases cs)
        case Nil
        with 2(4) nq bs show ?thesis by simp
      next
        case (Cons e r)
        show ?thesis
        proof (cases "e = CHR ''u''")
          case u: True
          from 2(4) nq bs Cons u obtain h1 h2 h3 h4 r' n where
            r: "r = h1 # h2 # h3 # h4 # r'" and h: "hex4 h1 h2 h3 h4 = Some n"
            and l: "lex_string (rev (utf8 n) @ acc) r' = Some (s, rest)"
            by (simp split: list.splits option.splits)
          from 2(1)[OF nq bs Cons u r refl refl refl h l] show ?thesis using Cons r by simp
        next
          case nu: False
          from 2(4) nq bs Cons nu obtain x where
            x: "unescape e = Some x" and l: "lex_string (x # acc) r = Some (s, rest)"
            by (simp split: option.splits)
          from 2(2)[OF nq bs Cons nu x l] show ?thesis using Cons by simp
        qed
      qed
    next
      case nbs: False
      from 2(4) nq nbs have c: "\<not> char_code c < 0x20" and l: "lex_string (c # acc) cs = Some (s, rest)"
        by (simp_all split: if_splits)
      from 2(3)[OF nq nbs c l] show ?thesis by simp
    qed
  qed
qed

function lex :: "string \<Rightarrow> token list option" where
  "lex [] = Some []"
| "lex (c # cs) =
     (if json_ws c then lex cs
      else if c = CHR ''{'' then map_option (Cons TLBrace) (lex cs)
      else if c = CHR ''}'' then map_option (Cons TRBrace) (lex cs)
      else if c = CHR ''['' then map_option (Cons TLBrack) (lex cs)
      else if c = CHR '']'' then map_option (Cons TRBrack) (lex cs)
      else if c = CHR '':'' then map_option (Cons TColon) (lex cs)
      else if c = CHR '','' then map_option (Cons TComma) (lex cs)
      else if c = CHR 0x22 then
        (case lex_string [] cs of
           None \<Rightarrow> None
         | Some (s, rest) \<Rightarrow> map_option (Cons (TString s)) (lex rest))
      else if c = CHR ''-'' \<or> is_digit c then
        (case parse_number (c # takeWhile num_char cs) of
           None \<Rightarrow> None
         | Some n \<Rightarrow> map_option (Cons (TNumber n)) (lex (dropWhile num_char cs)))
      else if prefix ''true'' (c # cs) then map_option (Cons TTrue) (lex (drop 3 cs))
      else if prefix ''false'' (c # cs) then map_option (Cons TFalse) (lex (drop 4 cs))
      else if prefix ''null'' (c # cs) then map_option (Cons TNull) (lex (drop 3 cs))
      else None)"
  by pat_completeness auto
termination
proof (relation "measure length", goal_cases)
  case (9 c cs x2 s rest)
  then show ?case using lex_string_length[of "[]" cs s rest] by simp
next
  case (10 c cs r)
  then show ?case by (simp add: less_Suc_eq_le length_dropWhile_le)
qed simp_all

datatype frame =
    FArr "jsv list"
  | FObj "(string \<times> jsv) list" "string option"

datatype pstate =
    PValue | PArrStart | PObjStart | PKey | PColon | PAfter | PDone jsv

text \<open>A repeated key keeps its place in the object and takes the later value.\<close>

definition set_property :: "string \<Rightarrow> jsv \<Rightarrow> (string \<times> jsv) list \<Rightarrow> (string \<times> jsv) list" where
  "set_property k v ms =
     (if k \<in> fst ` set ms then map (\<lambda>m. if fst m = k then (k, v) else m) ms
      else ms @ [(k, v)])"

fun deliver :: "jsv \<Rightarrow> frame list \<Rightarrow> (pstate \<times> frame list) option" where
  "deliver v [] = Some (PDone v, [])"
| "deliver v (FArr es # st) = Some (PAfter, FArr (v # es) # st)"
| "deliver v (FObj ms (Some k) # st) = Some (PAfter, FObj (set_property k v ms) None # st)"
| "deliver v (FObj ms None # st) = None"

fun scalar :: "token \<Rightarrow> jsv option" where
  "scalar (TString s) = Some (JStr s)"
| "scalar (TNumber n) = Some (JNum n)"
| "scalar TTrue = Some (JBool True)"
| "scalar TFalse = Some (JBool False)"
| "scalar TNull = Some JNull"
| "scalar _ = None"

fun close_arr :: "frame list \<Rightarrow> (pstate \<times> frame list) option" where
  "close_arr (FArr es # st) = deliver (JArr (rev es)) st"
| "close_arr _ = None"

fun close_obj :: "frame list \<Rightarrow> (pstate \<times> frame list) option" where
  "close_obj (FObj ms None # st) = deliver (JObj ms) st"
| "close_obj _ = None"

fun set_key :: "string \<Rightarrow> frame list \<Rightarrow> (pstate \<times> frame list) option" where
  "set_key k (FObj ms None # st) = Some (PColon, FObj ms (Some k) # st)"
| "set_key k _ = None"

definition start_value :: "token \<Rightarrow> frame list \<Rightarrow> (pstate \<times> frame list) option" where
  "start_value t st =
     (case scalar t of
        Some v \<Rightarrow> deliver v st
      | None \<Rightarrow>
          if t = TLBrack then Some (PArrStart, FArr [] # st)
          else if t = TLBrace then Some (PObjStart, FObj [] None # st)
          else None)"

fun step :: "pstate \<Rightarrow> frame list \<Rightarrow> token \<Rightarrow> (pstate \<times> frame list) option" where
  "step PValue st t = start_value t st"
| "step PArrStart st t = (if t = TRBrack then close_arr st else start_value t st)"
| "step PObjStart st t =
     (case t of TString k \<Rightarrow> set_key k st | TRBrace \<Rightarrow> close_obj st | _ \<Rightarrow> None)"
| "step PKey st t = (case t of TString k \<Rightarrow> set_key k st | _ \<Rightarrow> None)"
| "step PColon st t = (if t = TColon then Some (PValue, st) else None)"
| "step PAfter st t =
     (if t = TComma then
        (case st of FArr es # r \<Rightarrow> Some (PValue, st) | FObj ms k # r \<Rightarrow> Some (PKey, st) | [] \<Rightarrow> None)
      else if t = TRBrack then close_arr st
      else if t = TRBrace then close_obj st
      else None)"
| "step (PDone v) st t = None"

fun run :: "pstate \<Rightarrow> frame list \<Rightarrow> token list \<Rightarrow> jsv option" where
  "run (PDone v) st [] = Some v"
| "run p st [] = None"
| "run p st (t # ts) = (case step p st t of None \<Rightarrow> None | Some (p', st') \<Rightarrow> run p' st' ts)"

definition JSON_parse :: "string \<Rightarrow> jsv option" where
  "JSON_parse s = (case lex s of None \<Rightarrow> None | Some ts \<Rightarrow> run PValue [] ts)"

section \<open>Model levels (base-provider.js, models.js)\<close>

record level_entry =
  rank :: "int option"
  model :: "string option"
  reasoningEffort :: "string option"

record level_override =
  ov_model :: "string option"
  ov_reasoningEffort :: "string option"

record model_spec =
  ms_level :: string
  ms_model :: "string option"
  ms_reasoningEffort :: "string option"

text \<open>
  A provider is what \<^verbatim>\<open>BaseProvider\<close>'s methods read: its name, the object that
  \<^verbatim>\<open>getLevelMapping()\<close> returns, given by the properties of its own (the entries of
  the \<^verbatim>\<open>LEVEL_MAPPING\<close> literal), and the result of \<^verbatim>\<open>getDefaultLevel()\<close>.
\<close>

record provider =
  name :: string
  levels :: "(string \<times> level_entry) list"
  defaultLevel :: string

text \<open>
  The lookup \<^verbatim>\<open>mapping[key]\<close> in an object literal: \<open>None\<close> is \<^verbatim>\<open>undefined\<close>.
  The lookup finds the properties of the literal and also what the literal inherits from
  \<^verbatim>\<open>Object.prototype\<close>: functions and an object, which are truthy and have none of
  the fields \<^verbatim>\<open>rank\<close>, \<^verbatim>\<open>model\<close>, \<^verbatim>\<open>reasoningEffort\<close>.
\<close>

definition object_prototype_keys :: "string list" where
  "object_prototype_keys =
     [''constructor'', ''toString'', ''toLocaleString'', ''valueOf'', ''hasOwnProperty'',
      ''isPrototypeOf'', ''propertyIsEnumerable'', ''__proto__'', ''__defineGetter__'',
      ''__defineSetter__'', ''__lookupGetter__'', ''__lookupSetter__'']"

definition object_literal :: "(string \<times> level_entry) list \<Rightarrow> string \<rightharpoonup> level_entry" where
  "object_literal own k =
     (case map_of own k of
        Some v \<Rightarrow> Some v
      | None \<Rightarrow>
          if k \<in> set object_prototype_keys
          then Some \<lparr>rank = None, model = None, reasoningEffort = None\<rparr>
          else None)"

definition getLevelMapping :: "provider \<Rightarrow> string \<rightharpoonup> level_entry" where
  "getLevelMapping p = object_literal (levels p)"

definition openai_provider :: provider where
  "openai_provider =
     \<lparr>name = ''openai'',
      levels =
        [(''level1'', \<lparr>rank = Some 1, model = Some ''openai-model-main'', reasoningEffort = Some ''low''\<rparr>),
         (''level2'', \<lparr>rank = Some 2, model = Some ''openai-model-main'', reasoningEffort = Some ''medium''\<rparr>),
         (''level3'', \<lparr>rank = Some 3, model = Some ''openai-model-main'', reasoningEffort = Some ''xhigh''\<rparr>)],
      defaultLevel = ''level2''\<rparr>"

definition google_provider :: provider where
  "google_provider =
     \<lparr>name = ''google'',
      levels =
        [(''level1'', \<lparr>rank = Some 1, model = Some ''google-tier-1'', reasoningEffort = None\<rparr>),
         (''level2'', \<lparr>rank = Some 2, model = Some ''google-tier-2'', reasoningEffort = None\<rparr>),
         (''level3'', \<lparr>rank = Some 3, model = Some ''google-tier-3'', reasoningEffort = None\<rparr>)],
      defaultLevel = ''level2''\<rparr>"

datatype level_error =
    UnknownLevel string string
  | InvalidLevel string string
  | InvalidMinLevel string string
  | InvalidMaxLevel string string
  | MinExceedsMax string string string
  | LevelExceedsMax string string string
  | LevelBelowMin string string string

definition no_override :: level_override where
  "no_override = \<lparr>ov_model = None, ov_reasoningEffort = None\<rparr>"

definition resolveModelSpec ::
  "provider \<Rightarrow> string \<Rightarrow> (string \<rightharpoonup> level_override) \<Rightarrow> level_error + model_spec" where
  "resolveModelSpec p lvl overrides =
     (let mapping = getLevelMapping p;
          base = (case mapping lvl of Some b \<Rightarrow> Some b | None \<Rightarrow> mapping (defaultLevel p))
      in case base of
           None \<Rightarrow> Inl (UnknownLevel lvl (name p))
         | Some b \<Rightarrow>
             (let override = (case overrides lvl of Some ov \<Rightarrow> ov | None \<Rightarrow> no_override)
              in Inr \<lparr>ms_level = lvl,
                      ms_model = str_or (ov_model override) (model b),
                      ms_reasoningEffort = str_or (ov_reasoningEffort override) (reasoningEffort b)\<rparr>))"

text \<open>\<^verbatim>\<open>a > b\<close> on ranks: a comparison with \<^verbatim>\<open>undefined\<close> is false.\<close>

fun rank_gt :: "int option \<Rightarrow> int option \<Rightarrow> bool" where
  "rank_gt (Some a) (Some b) = (a > b)"
| "rank_gt _ _ = False"

fun rank_lt :: "int option \<Rightarrow> int option \<Rightarrow> bool" where
  "rank_lt (Some a) (Some b) = (a < b)"
| "rank_lt _ _ = False"

definition rank_of :: "provider \<Rightarrow> string \<Rightarrow> int option" where
  "rank_of p k = (case getLevelMapping p k of Some e \<Rightarrow> rank e | None \<Rightarrow> None)"

definition validateLevel ::
  "provider \<Rightarrow> string \<Rightarrow> string option \<Rightarrow> string option \<Rightarrow> level_error + string" where
  "validateLevel p lvl minLevel maxLevel =
     (if getLevelMapping p lvl = None then Inl (InvalidLevel lvl (name p))
      else if str_truthy minLevel \<and> getLevelMapping p (the minLevel) = None
        then Inl (InvalidMinLevel (the minLevel) (name p))
      else if str_truthy maxLevel \<and> getLevelMapping p (the maxLevel) = None
        then Inl (InvalidMaxLevel (the maxLevel) (name p))
      else if str_truthy minLevel \<and> str_truthy maxLevel
              \<and> rank_gt (rank_of p (the minLevel)) (rank_of p (the maxLevel))
        then Inl (MinExceedsMax (the minLevel) (the maxLevel) (name p))
      else if str_truthy maxLevel \<and> rank_gt (rank_of p lvl) (rank_of p (the maxLevel))
        then Inl (LevelExceedsMax lvl (the maxLevel) (name p))
      else if str_truthy minLevel \<and> rank_lt (rank_of p lvl) (rank_of p (the minLevel))
        then Inl (LevelBelowMin lvl (the minLevel) (name p))
      else Inr lvl)"

section \<open>Direct API selection (direct-api-caller.js)\<close>

text \<open>
  The fields of an agent configuration that \<^verbatim>\<open>shouldUseDirectApi\<close> reads; a field
  the configuration does not have is \<open>JUndefined\<close>.
\<close>

record agent_config =
  useDirectApi :: jsv
  role :: jsv
  outputFormat :: jsv
  jsonSchema :: jsv

text \<open>
  The first argument is \<^verbatim>\<open>process.env.ANTHROPIC_API_KEY\<close>: \<open>None\<close> when the
  variable is not in the environment, otherwise its string value.
\<close>

definition shouldUseDirectApi :: "string option \<Rightarrow> agent_config \<Rightarrow> bool" where
  "shouldUseDirectApi apiKey agentConfig =
     (if \<not> str_truthy apiKey then False
      else if useDirectApi agentConfig = JBool True then True
      else if useDirectApi agentConfig = JBool False then False
      else if role agentConfig = JStr ''conductor''
              \<and> outputFormat agentConfig = JStr ''json''
              \<and> truthy (jsonSchema agentConfig)
        then True
      else False)"

section \<open>Stream parser (output-parser.js)\<close>

datatype event =
    TextEvent string
  | ThinkingEvent string
  | ToolCall jsv jsv jsv
  | ToolResult jsv jsv bool
  | ResultOk jsv jsv
  | ResultFailed jsv

datatype parsed = NoEvent | OneEvent event | ManyEvents "event list"

definition safeJsonParse :: "jsv \<Rightarrow> jsv \<Rightarrow> jsv" where
  "safeJsonParse v fallback =
     (case js_to_string v of
        Inl e \<Rightarrow> fallback
      | Inr s \<Rightarrow> (case JSON_parse s of None \<Rightarrow> fallback | Some x \<Rightarrow> x))"

definition texts_of :: "string list \<Rightarrow> jsv list \<Rightarrow> js_error + string" where
  "texts_of types content =
     (case js_filter (\<lambda>c. case js_get c ''type'' of
                            Inl e \<Rightarrow> Inl e
                          | Inr t \<Rightarrow> Inr (t \<in> JStr ` set types)) content of
        Inl e \<Rightarrow> Inl e
      | Inr cs \<Rightarrow>
          (case js_map (\<lambda>c. js_get c ''text'') cs of
             Inl e \<Rightarrow> Inl e
           | Inr ts \<Rightarrow> js_join [] ts))"

definition message_events :: "jsv \<Rightarrow> js_error + event list" where
  "message_events item =
     (let content = (case js_prop item ''content'' of
                       JArr xs \<Rightarrow> xs
                     | v \<Rightarrow> [JObj [(''type'', JStr ''text''), (''text'', v)]])
      in case texts_of [''text''] content of
           Inl e \<Rightarrow> Inl e
         | Inr text \<Rightarrow>
             (case texts_of [''thinking'', ''reasoning''] content of
                Inl e \<Rightarrow> Inl e
              | Inr thinking \<Rightarrow>
                  Inr ((if text \<noteq> [] then [TextEvent text] else [])
                       @ (if thinking \<noteq> [] then [ThinkingEvent thinking] else []))))"

definition tool_id :: "jsv \<Rightarrow> jsv" where
  "tool_id item =
     js_or (js_or (js_or (js_prop item ''call_id'') (js_prop item ''id'')) (js_prop item ''tool_call_id''))
       (js_prop item ''tool_id'')"

definition tool_call :: "jsv \<Rightarrow> event" where
  "tool_call item =
     (let args = (case js_prop item ''arguments'' of
                    JStr s \<Rightarrow> safeJsonParse (JStr s) (JObj [])
                  | a \<Rightarrow> js_or a (JObj []))
      in ToolCall (js_prop item ''name'') (tool_id item) args)"

definition tool_result :: "jsv \<Rightarrow> event" where
  "tool_result item =
     ToolResult (tool_id item)
       (js_coalesce (js_prop item ''output'')
          (js_coalesce (js_prop item ''result'') (js_coalesce (js_prop item ''content'') (JStr []))))
       (truthy (js_prop item ''error''))"

definition parseItem :: "jsv \<Rightarrow> js_error + parsed" where
  "parseItem item =
     (case js_get item ''type'' of
        Inl e \<Rightarrow> Inl e
      | Inr ty \<Rightarrow>
          (case (if ty = JStr ''message'' \<and> js_prop item ''role'' = JStr ''assistant''
                 then message_events item else Inr []) of
             Inl e \<Rightarrow> Inl e
           | Inr ev1 \<Rightarrow>
               (let ev2 = (if ty = JStr ''function_call'' then [tool_call item] else []);
                    ev3 = (if ty = JStr ''function_call_output'' then [tool_result item] else []);
                    events = ev1 @ ev2 @ ev3
                in Inr (case events of
                          [] \<Rightarrow> NoEvent
                        | [e] \<Rightarrow> OneEvent e
                        | _ \<Rightarrow> ManyEvents events))))"

definition turn_completed :: "jsv \<Rightarrow> event" where
  "turn_completed event =
     (let usage = js_or (js_or (js_prop event ''usage'') (js_prop (js_prop event ''response'') ''usage''))
                    (JObj [])
      in ResultOk (js_or (js_prop usage ''input_tokens'') (JNum (Finite False 0 0)))
                  (js_or (js_prop usage ''output_tokens'') (JNum (Finite False 0 0))))"

definition turn_failed :: "jsv \<Rightarrow> event" where
  "turn_failed event =
     ResultFailed (js_or (js_or (js_prop (js_prop event ''error'') ''message'') (js_prop event ''error''))
                     (JStr ''Turn failed''))"

definition parseEvent ::
  "string \<Rightarrow> (jsv \<Rightarrow> jsv \<Rightarrow> 's \<Rightarrow> js_error option \<times> 's) option \<Rightarrow> 's
     \<Rightarrow> (js_error + parsed) \<times> 's" where
  "parseEvent line onUnknown st =
     (case JSON_parse line of
        None \<Rightarrow> (Inr NoEvent, st)
      | Some event \<Rightarrow>
          (case js_get event ''type'' of
             Inl e \<Rightarrow> (Inl e, st)
           | Inr ty \<Rightarrow>
               if ty = JStr ''thread.started'' then (Inr NoEvent, st)
               else if ty = JStr ''item.created'' then (parseItem (js_prop event ''item''), st)
               else if ty = JStr ''turn.completed'' then (Inr (OneEvent (turn_completed event)), st)
               else if ty = JStr ''turn.failed'' then (Inr (OneEvent (turn_failed event)), st)
               else (case onUnknown of
                       None \<Rightarrow> (Inr NoEvent, st)
                     | Some f \<Rightarrow>
                         (case f ty event st of
                            (Some e, st') \<Rightarrow> (Inl e, st')
                          | (None, st') \<Rightarrow> (Inr NoEvent, st')))))"

definition ascii_ws :: "char \<Rightarrow> bool" where
  "ascii_ws c = (char_code c = 0x20 \<or> (0x09 \<le> char_code c \<and> char_code c \<le> 0x0D))"

definition ws2 :: "char \<Rightarrow> char \<Rightarrow> bool" where
  "ws2 a b = (a = CHR 0xC2 \<and> b = CHR 0xA0)"

definition ws3 :: "char \<Rightarrow> char \<Rightarrow> char \<Rightarrow> bool" where
  "ws3 a b c =
     ((a = CHR 0xE1 \<and> b = CHR 0x9A \<and> c = CHR 0x80)
      \<or> (a = CHR 0xE2 \<and> b = CHR 0x80
          \<and> ((0x80 \<le> char_code c \<and> char_code c \<le> 0x8A)
              \<or> c = CHR 0xA8 \<or> c = CHR 0xA9 \<or> c = CHR 0xAF))
      \<or> (a = CHR 0xE2 \<and> b = CHR 0x81 \<and> c = CHR 0x9F)
      \<or> (a = CHR 0xE3 \<and> b = CHR 0x80 \<and> c = CHR 0x80)
      \<or> (a = CHR 0xEF \<and> b = CHR 0xBB \<and> c = CHR 0xBF))"

fun trimStart :: "string \<Rightarrow> string" where
  "trimStart [] = []"
| "trimStart (a # r) =
     (if ascii_ws a then trimStart r
      else case r of
             [] \<Rightarrow> a # r
           | b # r1 \<Rightarrow>
               if ws2 a b then trimStart r1
               else (case r1 of
                       [] \<Rightarrow> a # r
                     | c # r2 \<Rightarrow> if ws3 a b c then trimStart r2 else a # r))"

fun trimEnd_rev :: "string \<Rightarrow> string" where
  "trimEnd_rev [] = []"
| "trimEnd_rev (c # r) =
     (if ascii_ws c then trimEnd_rev r
      else case r of
             [] \<Rightarrow> c # r
           | b # r1 \<Rightarrow>
               if ws2 b c then trimEnd_rev r1
               else (case r1 of
                       [] \<Rightarrow> c # r
                     | a # r2 \<Rightarrow> if ws3 a b c then trimEnd_rev r2 else c # r))"

definition js_trim :: "string \<Rightarrow> string" where
  "js_trim s = rev (trimEnd_rev (rev (trimStart s)))"

fun js_split :: "char \<Rightarrow> string \<Rightarrow> string list" where
  "js_split sep [] = [[]]"
| "js_split sep (c # cs) =
     (if c = sep then [] # js_split sep cs
      else (case js_split sep cs of
              [] \<Rightarrow> [[c]]
            | l # ls \<Rightarrow> (c # l) # ls))"

fun events_of :: "parsed \<Rightarrow> event list" where
  "events_of NoEvent = []"
| "events_of (OneEvent e) = [e]"
| "events_of (ManyEvents es) = es"

fun parseLines ::
  "string list \<Rightarrow> (jsv \<Rightarrow> jsv \<Rightarrow> 's \<Rightarrow> js_error option \<times> 's) option \<Rightarrow> 's
     \<Rightarrow> (js_error + event list) \<times> 's" where
  "parseLines [] onUnknown st = (Inr [], st)"
| "parseLines (line # ls) onUnknown st =
     (if js_trim line = [] then parseLines ls onUnknown st
      else (case parseEvent line onUnknown st of
              (Inl e, st') \<Rightarrow> (Inl e, st')
            | (Inr r, st') \<Rightarrow>
                (case parseLines ls onUnknown st' of
                   (Inl e, st'') \<Rightarrow> (Inl e, st'')
                 | (Inr evs, st'') \<Rightarrow> (Inr (events_of r @ evs), st''))))"

definition parseChunk ::
  "string \<Rightarrow> (jsv \<Rightarrow> jsv \<Rightarrow> 's \<Rightarrow> js_error option \<times> 's) option \<Rightarrow> 's
     \<Rightarrow> (js_error + event list) \<times> 's" where
  "parseChunk chunk onUnknown st = parseLines (js_split (CHR 0x0A) chunk) onUnknown st"

section \<open>CLI capabilities and command builders (providers)\<close>

text \<open>
  The keys of a \<^verbatim>\<open>cliFeatures\<close> object. A features object maps each key to
  \<open>Some b\<close> when it holds the boolean \<open>b\<close> under that key and to \<open>None\<close> when it
  has no such property, so \<^verbatim>\<open>f.k === false\<close> is \<open>f k = Some False\<close>,
  \<^verbatim>\<open>f.k !== false\<close> is \<open>f k \<noteq> Some False\<close>, and \<^verbatim>\<open>f.k\<close> as a condition is
  \<open>f k = Some True\<close>.
\<close>

datatype capability =
    supportsJson
  | supportsOutputSchema
  | supportsAutoApprove
  | supportsCwd
  | supportsConfigOverride
  | supportsModel
  | supportsStreamJson
  | supportsVerbose
  | supportsIncludePartials
  | supportsJsonSchema
  | supportsOutputFormat

type_synonym cli_features = "capability \<Rightarrow> bool option"

definition no_features :: cli_features where
  "no_features = (\<lambda>c. None)"

subsection \<open>Probing the help output (OpenAIProvider.getCliFeatures)\<close>

definition word_char :: "char \<Rightarrow> bool" where
  "word_char c =
     ((48 \<le> char_code c \<and> char_code c \<le> 57) \<or> (65 \<le> char_code c \<and> char_code c \<le> 90)
      \<or> (97 \<le> char_code c \<and> char_code c \<le> 122) \<or> c = CHR ''_'')"

text \<open>\<^verbatim>\<open>\b\<close> after a word character: the text ends, or goes on with a non-word character.\<close>

definition boundary :: "string \<Rightarrow> bool" where
  "boundary rest = (case rest of [] \<Rightarrow> True | c # cs \<Rightarrow> \<not> word_char c)"

text \<open>Whether the text read so far, given reversed, ends with a white space character.\<close>

definition ends_with_space :: "string \<Rightarrow> bool" where
  "ends_with_space rprev =
     (case rprev of
        [] \<Rightarrow> False
      | c # r \<Rightarrow>
          ascii_ws c
          \<or> (case r of
                [] \<Rightarrow> False
              | b # r1 \<Rightarrow> ws2 b c \<or> (case r1 of [] \<Rightarrow> False | a # r2 \<Rightarrow> ws3 a b c)))"

text \<open>
  \<^verbatim>\<open>/flag\b/.test(help)\<close> and, with \<open>need_space\<close>, \<^verbatim>\<open>/\sflag\b/.test(help)\<close>,
  for a flag that ends with a word character.
\<close>

fun flag_scan :: "bool \<Rightarrow> string \<Rightarrow> string \<Rightarrow> string \<Rightarrow> bool" where
  "flag_scan need_space flag rprev [] = False"
| "flag_scan need_space flag rprev (c # cs) =
     ((prefix flag (c # cs) \<and> boundary (drop (length flag) (c # cs))
         \<and> (if need_space then ends_with_space rprev else True))
      \<or> flag_scan need_space flag (c # rprev) cs)"

definition has_flag :: "string \<Rightarrow> string \<Rightarrow> bool" where
  "has_flag flag help = flag_scan False flag [] help"

definition has_spaced_flag :: "string \<Rightarrow> string \<Rightarrow> bool" where
  "has_spaced_flag flag help = flag_scan True flag [] help"

text \<open>The object \<^verbatim>\<open>getCliFeatures\<close> returns: six capabilities and \<^verbatim>\<open>unknown\<close>.\<close>

record features =
  caps :: cli_features
  unknown :: bool

definition openai_capabilities :: "capability list" where
  "openai_capabilities =
     [supportsJson, supportsOutputSchema, supportsAutoApprove, supportsCwd,
      supportsConfigOverride, supportsModel]"

text \<open>
  The body of \<^verbatim>\<open>getCliFeatures\<close> after the probe; \<open>help\<close> is what
  \<^verbatim>\<open>getHelpOutput\<close> returned (\<open>None\<close> for no output).
\<close>

definition detect_features :: "string option \<Rightarrow> features" where
  "detect_features help =
     (let unknown = \<not> str_truthy help;
          h = (case help of None \<Rightarrow> [] | Some text \<Rightarrow> text)
      in \<lparr>caps = no_features
            (supportsJson := Some (if unknown then True else has_flag ''--json'' h),
             supportsOutputSchema :=
               Some (if unknown then True else has_flag ''--output-schema'' h),
             supportsAutoApprove :=
               Some (if unknown then True
                     else has_flag ''--dangerously-bypass-approvals-and-sandbox'' h),
             supportsCwd :=
               Some (if unknown then True
                     else has_spaced_flag ''-C'' h \<or> has_flag ''--cwd'' h),
             supportsConfigOverride := Some (if unknown then True else has_flag ''--config'' h),
             supportsModel :=
               Some (if unknown then True
                     else has_spaced_flag ''-m'' h \<or> has_flag ''--model'' h)),
          unknown = unknown\<rparr>)"

subsection \<open>Command builders (cli-builder.js of each provider)\<close>

text \<open>
  An argument of the command line is a literal of the builder's code or a value taken
  from its inputs; \<open>Stringified v\<close> stands for \<^verbatim>\<open>JSON.stringify(v)\<close>.
\<close>

datatype cli_arg = Lit string | Val string | Stringified jsv

record command =
  binary :: string
  args :: "cli_arg list"
  env :: "(string \<times> string) list"

record build_options =
  opt_modelSpec :: "model_spec option"
  opt_outputFormat :: "string option"
  opt_jsonSchema :: jsv
  opt_cwd :: "string option"
  opt_autoApprove :: bool
  opt_cliFeatures :: "cli_features option"

text \<open>\<^verbatim>\<open>modelSpec?.model\<close> and \<^verbatim>\<open>modelSpec?.reasoningEffort\<close>.\<close>

definition spec_model :: "build_options \<Rightarrow> string option" where
  "spec_model options = (case opt_modelSpec options of None \<Rightarrow> None | Some m \<Rightarrow> ms_model m)"

definition spec_reasoningEffort :: "build_options \<Rightarrow> string option" where
  "spec_reasoningEffort options =
     (case opt_modelSpec options of None \<Rightarrow> None | Some m \<Rightarrow> ms_reasoningEffort m)"

text \<open>The destructuring default \<^verbatim>\<open>cliFeatures = {}\<close>.\<close>

definition features_of :: "build_options \<Rightarrow> cli_features" where
  "features_of options = (case opt_cliFeatures options of None \<Rightarrow> no_features | Some f \<Rightarrow> f)"

text \<open>\<^verbatim>\<open>typeof jsonSchema === 'string' ? jsonSchema : JSON.stringify(jsonSchema)\<close>.\<close>

definition schema_arg :: "jsv \<Rightarrow> cli_arg" where
  "schema_arg schema = (case schema of JStr s \<Rightarrow> Val s | v \<Rightarrow> Stringified v)"

definition json_format :: "string option \<Rightarrow> bool" where
  "json_format fmt = (fmt = Some ''stream-json'' \<or> fmt = Some ''json'')"

definition openai_buildCommand :: "string \<Rightarrow> build_options \<Rightarrow> command" where
  "openai_buildCommand context options =
     (let cliFeatures = features_of options
      in \<lparr>binary = ''codex'',
          args =
            [Lit ''exec'']
            @ (if json_format (opt_outputFormat options) \<and> cliFeatures supportsJson = Some True
               then [Lit ''--json''] else [])
            @ (if str_truthy (spec_model options)
               then [Lit ''-m'', Val (the (spec_model options))] else [])
            @ (if str_truthy (spec_reasoningEffort options)
                  \<and> cliFeatures supportsConfigOverride = Some True
               then [Lit ''--config'',
                     Val (''model_reasoning_effort='' @ [CHR 0x22]
                          @ the (spec_reasoningEffort options) @ [CHR 0x22])]
               else [])
            @ (if str_truthy (opt_cwd options) \<and> cliFeatures supportsCwd = Some True
               then [Lit ''-C'', Val (the (opt_cwd options))] else [])
            @ (if opt_autoApprove options \<and> cliFeatures supportsAutoApprove = Some True
               then [Lit ''--dangerously-bypass-approvals-and-sandbox''] else [])
            @ (if truthy (opt_jsonSchema options) \<and> cliFeatures supportsOutputSchema = Some True
               then [Lit ''--output-schema'', schema_arg (opt_jsonSchema options)] else [])
            @ [Val context],
          env = []\<rparr>)"





section \<open>The OpenAI provider (providers/openai/index.js)\<close>

text \<open>
  The keys of a \<^verbatim>\<open>Map\<close>: primitive values are compared by value, zero and minus
  zero being one key, and arrays and objects by identity, which is the number \<open>n\<close> of
  \<open>KRef n\<close>.
\<close>

datatype mapkey = KUndefined | KNull | KBool bool | KNum number | KStr string | KRef nat

fun is_ref :: "jsv \<Rightarrow> bool" where
  "is_ref (JArr xs) = True"
| "is_ref (JObj ms) = True"
| "is_ref v = False"

fun unsigned_zero :: "number \<Rightarrow> number" where
  "unsigned_zero (Finite neg m x) = Finite (neg \<and> m \<noteq> 0) m x"
| "unsigned_zero d = d"

fun key_of :: "nat \<Rightarrow> jsv \<Rightarrow> mapkey" where
  "key_of n JUndefined = KUndefined"
| "key_of n JNull = KNull"
| "key_of n (JBool b) = KBool b"
| "key_of n (JNum d) = KNum (unsigned_zero d)"
| "key_of n (JStr s) = KStr s"
| "key_of n (JArr xs) = KRef n"
| "key_of n (JObj ms) = KRef n"

text \<open>
  The fields of an \<^verbatim>\<open>OpenAIProvider\<close> instance: \<^verbatim>\<open>_cliFeatures\<close>,
  \<^verbatim>\<open>_unknownEventCounts\<close>, and the number of map keys that were objects, which
  gives each of them its identity: every line is parsed into a value of its own, so an
  array or an object is never the key of an earlier event.
\<close>

record OpenAIProvider =
  cliFeatures_cache :: "features option"
  unknownEventCounts :: "mapkey \<rightharpoonup> nat"
  allocated :: nat

text \<open>
  What is shared by all instances in a process: the module-level set \<^verbatim>\<open>warned\<close>
  and the lines written by \<^verbatim>\<open>console.warn\<close> and \<^verbatim>\<open>console.debug\<close>.
\<close>

record process =
  warned :: "string list"
  console_warn :: "string list"
  console_debug :: "string list"

definition new_OpenAIProvider :: OpenAIProvider where
  "new_OpenAIProvider =
     \<lparr>cliFeatures_cache = None, unknownEventCounts = Map.empty, allocated = 0\<rparr>"

definition logUnknown ::
  "jsv \<Rightarrow> OpenAIProvider \<times> process \<Rightarrow> js_error option \<times> (OpenAIProvider \<times> process)" where
  "logUnknown ty = (\<lambda>(this, p).
     let k = key_of (allocated this) ty;
         this1 = (if is_ref ty then this\<lparr>allocated := Suc (allocated this)\<rparr> else this);
         current = (case unknownEventCounts this1 k of None \<Rightarrow> 0 | Some c \<Rightarrow> c)
     in if current \<ge> 5 then (None, (this1, p))
        else
          (let this2 = this1\<lparr>unknownEventCounts := (unknownEventCounts this1)(k \<mapsto> current + 1)\<rparr>
           in case js_to_string ty of
                Inl e \<Rightarrow> (Some e, (this2, p))
              | Inr s \<Rightarrow>
                  (None, (this2,
                     p\<lparr>console_debug :=
                         console_debug p @ [''[openai] Unknown event type: '' @ s]\<rparr>))))"

definition OpenAIProvider_parseEvent ::
  "string \<Rightarrow> OpenAIProvider \<times> process \<Rightarrow> (js_error + parsed) \<times> (OpenAIProvider \<times> process)" where
  "OpenAIProvider_parseEvent line st = parseEvent line (Some (\<lambda>ty event. logUnknown ty)) st"

text \<open>
  The lines of a stream given to \<^verbatim>\<open>parseEvent\<close> one after the other by a caller
  that goes on after an exception. For every line: what the call returned or raised, and
  what it wrote with \<^verbatim>\<open>console.debug\<close>, which is what the console holds after the
  call beyond what it held before.
\<close>

definition printed :: "process \<Rightarrow> process \<Rightarrow> string list" where
  "printed p p' = drop (length (console_debug p)) (console_debug p')"

fun feed ::
  "string list \<Rightarrow> OpenAIProvider \<times> process
     \<Rightarrow> ((js_error + parsed) \<times> string list) list \<times> (OpenAIProvider \<times> process)" where
  "feed [] st = ([], st)"
| "feed (line # ls) st =
     (case OpenAIProvider_parseEvent line st of
        (r, st') \<Rightarrow>
          (case feed ls st' of
             (rs, st'') \<Rightarrow> ((r, printed (snd st) (snd st')) # rs, st'')))"

subsection \<open>OpenAIProvider.getCliFeatures and OpenAIProvider.buildCommand\<close>

text \<open>
  \<^verbatim>\<open>getCliFeatures\<close>: the cached object when there is one; otherwise the help
  output is probed (\<open>help\<close> is what the probe returns when it runs), and the features
  detected are stored and returned.
\<close>

definition getCliFeatures :: "string option \<Rightarrow> OpenAIProvider \<Rightarrow> features \<times> OpenAIProvider" where
  "getCliFeatures help this =
     (case cliFeatures_cache this of
        Some cached \<Rightarrow> (cached, this)
      | None \<Rightarrow>
          (let features = detect_features help
           in (features, this\<lparr>cliFeatures_cache := Some features\<rparr>)))"

text \<open>The warning sign and variation selector that start each warning, in UTF-8.\<close>

definition warning_sign :: string where
  "warning_sign = [CHR 0xE2, CHR 0x9A, CHR 0xA0, CHR 0xEF, CHR 0xB8, CHR 0x8F, CHR '' '']"

definition warnOnce :: "string \<Rightarrow> string \<Rightarrow> process \<Rightarrow> process" where
  "warnOnce key message p =
     (if key \<in> set (warned p) then p
      else p\<lparr>warned := warned p @ [key],
             console_warn := console_warn p @ [warning_sign @ message]\<rparr>)"

definition OpenAIProvider_buildCommand ::
  "string \<Rightarrow> build_options \<Rightarrow> process \<Rightarrow> command \<times> process" where
  "OpenAIProvider_buildCommand context options p =
     (let cliFeatures = features_of options;
          p1 = (if opt_autoApprove options \<and> cliFeatures supportsAutoApprove = Some False
                then warnOnce ''openai-auto-approve''
                       ''Codex CLI does not support auto-approve; continuing without bypass flag.'' p
                else p);
          p2 = (if truthy (opt_jsonSchema options) \<and> cliFeatures supportsOutputSchema = Some False
                then warnOnce ''openai-jsonschema''
                       ''Codex CLI does not support --output-schema; skipping schema flag.'' p1
                else p1);
          p3 = (if str_truthy (spec_reasoningEffort options)
                   \<and> cliFeatures supportsConfigOverride = Some False
                then warnOnce ''openai-reasoning''
                       ''Codex CLI does not support --config overrides; skipping reasoningEffort.'' p2
                else p2)
      in (openai_buildCommand context (options\<lparr>opt_cliFeatures := Some cliFeatures\<rparr>), p3))"

subsection \<open>Notions used to state the properties of the stream parser\<close>

text \<open>The event types \<^verbatim>\<open>parseEvent\<close> has a \<^verbatim>\<open>case\<close> for.\<close>

definition known_types :: "jsv set" where
  "known_types = {JStr ''thread.started'', JStr ''item.created'', JStr ''turn.completed'',
                  JStr ''turn.failed''}"

text \<open>
  The type of the event on a line, when the line is JSON, its \<^verbatim>\<open>type\<close> can be read
  and is none of the known ones: the lines that reach the \<^verbatim>\<open>default\<close> branch.
\<close>

definition unknown_type_of :: "string \<Rightarrow> jsv option" where
  "unknown_type_of line =
     (case JSON_parse line of
        None \<Rightarrow> None
      | Some event \<Rightarrow>
          (case js_get event ''type'' of
             Inl e \<Rightarrow> None
           | Inr ty \<Rightarrow> if ty \<in> known_types then None else Some ty))"

text \<open>The map key of such a line when its type is a primitive value.\<close>

definition unknown_key :: "string \<Rightarrow> mapkey option" where
  "unknown_key line =
     (case unknown_type_of line of
        None \<Rightarrow> None
      | Some ty \<Rightarrow> if is_ref ty then None else Some (key_of 0 ty))"

fun is_KRef :: "mapkey \<Rightarrow> bool" where
  "is_KRef (KRef n) = True"
| "is_KRef k = False"

text \<open>\<^verbatim>\<open>this._unknownEventCounts.get(k) || 0\<close>.\<close>

definition count_of :: "OpenAIProvider \<Rightarrow> mapkey \<Rightarrow> nat" where
  "count_of this k = (case unknownEventCounts this k of None \<Rightarrow> 0 | Some c \<Rightarrow> c)"

text \<open>The line that \<^verbatim>\<open>_logUnknown\<close> writes for a type.\<close>

definition unknown_line :: "jsv \<Rightarrow> string" where
  "unknown_line ty =
     ''[openai] Unknown event type: '' @ (case js_to_string ty of Inr s \<Rightarrow> s | Inl e \<Rightarrow> [])"

text \<open>
  How many lines of a stream have an unknown primitive type of a given key, and for how
  many of them the call wrote a debug line.
\<close>

definition occurrences :: "mapkey \<Rightarrow> string list \<Rightarrow> nat" where
  "occurrences k lines = length (filter (\<lambda>l. unknown_key l = Some k) lines)"

definition emissions ::
  "mapkey \<Rightarrow> string list \<Rightarrow> ((js_error + parsed) \<times> string list) list \<Rightarrow> nat" where
  "emissions k lines rs =
     length (filter (\<lambda>e. unknown_key (fst e) = Some k \<and> snd (snd e) \<noteq> []) (zip lines rs))"

definition new_process :: process where
  "new_process = \<lparr>warned = [], console_warn = [], console_debug = []\<rparr>"

definition seven_x :: "string list" where
  \<open>seven_x = replicate 7 ''{"type":"x"}''\<close>

definition five_x :: "string list" where
  \<open>five_x = replicate 5 ''{"type":"x"}''\<close>

subsection \<open>Notions used to state the properties of the command builders\<close>















section \<open>Direct API calls (direct-api-caller.js)\<close>

text \<open>
  \<open>split_at_first needle text\<close> cuts \<open>text\<close> at the leftmost occurrence of
  \<open>needle\<close>: what stands before it and what stands after it.
\<close>

fun split_at_first :: "string \<Rightarrow> string \<Rightarrow> (string \<times> string) option" where
  "split_at_first needle [] = (if needle = [] then Some ([], []) else None)"
| "split_at_first needle (c # cs) =
     (if prefix needle (c # cs) then Some ([], drop (length needle) (c # cs))
      else (case split_at_first needle cs of
              None \<Rightarrow> None
            | Some (before, after) \<Rightarrow> Some (c # before, after)))"

text \<open>
  \<^verbatim>\<open>rawResult.match(/```json\s*([\s\S]*?)```/)\<close>: the leftmost \<^verbatim>\<open>```json\<close> that
  has a \<^verbatim>\<open>```\<close> after it, up to the first such \<^verbatim>\<open>```\<close>. The result is what
  stands between the two, that is the white space matched by \<^verbatim>\<open>\s*\<close> followed by
  the group; the code only uses the group trimmed, which is the trimmed result
  (a backquote is not white space, so the closing fence cannot start inside the white
  space).
\<close>

definition fence_match :: "string \<Rightarrow> string option" where
  "fence_match rawResult =
     (case split_at_first ''```json'' rawResult of
        None \<Rightarrow> None
      | Some (before, rest) \<Rightarrow>
          (case split_at_first ''```'' rest of
             None \<Rightarrow> None
           | Some (body, after) \<Rightarrow> Some body))"

text \<open>
  \<^verbatim>\<open>rawResult.match(/\{[\s\S]*\}/)\<close>: the star is greedy, so the match runs from the
  first \<^verbatim>\<open>{\<close> to the last \<^verbatim>\<open>}\<close> after it.
\<close>

definition object_match :: "string \<Rightarrow> string option" where
  "object_match rawResult =
     (let from_brace = dropWhile (\<lambda>c. c \<noteq> CHR ''{'') rawResult;
          to_brace = rev (dropWhile (\<lambda>c. c \<noteq> CHR ''}'') (rev from_brace))
      in if to_brace = [] then None else Some to_brace)"

text \<open>
  The ways a call fails. \<open>JsonSyntaxError\<close> is the \<^verbatim>\<open>SyntaxError\<close> of a
  \<^verbatim>\<open>JSON.parse\<close> inside the \<^verbatim>\<open>catch\<close> block, which the outer handler turns
  into a failed result; \<open>CouldNotParseJson\<close> is the error whose message starts
  \<^verbatim>\<open>Could not parse JSON from response\<close>.
\<close>

datatype failure =
    RateLimited
  | ApiError string
  | JsonSyntaxError
  | CouldNotParseJson
  | SchemaCompileError
  | SchemaValidationFailed

text \<open>Lines 94 to 112 of \<^verbatim>\<open>callDirectApi\<close>: the parse of the raw text when a schema is configured.\<close>

definition parseStructured :: "string \<Rightarrow> failure + jsv" where
  "parseStructured rawResult =
     (case JSON_parse rawResult of
        Some v \<Rightarrow> Inr v
      | None \<Rightarrow>
          (case fence_match rawResult of
             Some body \<Rightarrow>
               (case JSON_parse (js_trim body) of
                  Some v \<Rightarrow> Inr v
                | None \<Rightarrow> Inl JsonSyntaxError)
           | None \<Rightarrow>
               (case object_match rawResult of
                  Some obj \<Rightarrow>
                    (case JSON_parse obj of
                       Some v \<Rightarrow> Inr v
                     | None \<Rightarrow> Inl JsonSyntaxError)
                | None \<Rightarrow> Inl CouldNotParseJson)))"

text \<open>
  The response of the API as far as the code reads it: the content blocks (type and
  text) and the token counts. The request either resolves to a response or throws an
  error with an optional HTTP status and a message.
\<close>

record api_response =
  content :: "(string \<times> string option) list"
  usage_input_tokens :: "nat option"
  usage_output_tokens :: "nat option"

datatype api_outcome = Resolved api_response | Thrown "nat option" string

datatype parsed_result = Text string | Json jsv

datatype call_result = Success parsed_result string nat nat | Failure failure

definition rawResult_of :: "api_response \<Rightarrow> string" where
  "rawResult_of response =
     (case find (\<lambda>c. fst c = ''text'') (content response) of
        None \<Rightarrow> []
      | Some (t, None) \<Rightarrow> []
      | Some (t, Some text) \<Rightarrow> text)"

definition or_zero :: "nat option \<Rightarrow> nat" where
  "or_zero n = (case n of None \<Rightarrow> 0 | Some k \<Rightarrow> k)"

text \<open>
  \<^verbatim>\<open>callDirectApi\<close> from the answer of the API on. The first argument is
  \<^verbatim>\<open>ajv.compile\<close> of the external schema validator (\<open>None\<close> when compiling the
  schema throws). Building the request, the client singleton and the measured durations
  are left out.
\<close>

definition callDirectApi ::
  "(jsv \<Rightarrow> (jsv \<Rightarrow> bool) option) \<Rightarrow> api_outcome \<Rightarrow> jsv \<Rightarrow> call_result" where
  "callDirectApi ajv_compile outcome schema =
     (case outcome of
        Thrown status message \<Rightarrow>
          if status = Some 429 then Failure RateLimited else Failure (ApiError message)
      | Resolved response \<Rightarrow>
          (let rawResult = rawResult_of response;
               inputTokens = or_zero (usage_input_tokens response);
               outputTokens = or_zero (usage_output_tokens response)
           in if truthy schema then
                (case parseStructured rawResult of
                   Inl f \<Rightarrow> Failure f
                 | Inr parsedResult \<Rightarrow>
                     (case ajv_compile schema of
                        None \<Rightarrow> Failure SchemaCompileError
                      | Some validate \<Rightarrow>
                          if validate parsedResult
                          then Success (Json parsedResult) rawResult inputTokens outputTokens
                          else Failure SchemaValidationFailed))
              else Success (Text rawResult) rawResult inputTokens outputTokens))"

text \<open>
  Following the spec's words: a strict parse; failing that, the fenced JSON block;
  failing that, the first balanced object; failing that, an error. The first balanced
  object starts at the first \<^verbatim>\<open>{\<close> and ends where its braces are closed.
\<close>

fun balanced_rest :: "nat \<Rightarrow> string \<Rightarrow> string option" where
  "balanced_rest depth [] = None"
| "balanced_rest depth (c # cs) =
     (if c = CHR ''}'' then
        (if depth \<le> 1 then Some [c] else map_option (Cons c) (balanced_rest (depth - 1) cs))
      else if c = CHR ''{'' then map_option (Cons c) (balanced_rest (depth + 1) cs)
      else map_option (Cons c) (balanced_rest depth cs))"

definition first_balanced_object :: "string \<Rightarrow> string option" where
  "first_balanced_object text =
     (case dropWhile (\<lambda>c. c \<noteq> CHR ''{'') text of
        [] \<Rightarrow> None
      | c # cs \<Rightarrow> map_option (Cons c) (balanced_rest 1 cs))"

definition spec_parseStructured :: "string \<Rightarrow> failure + jsv" where
  "spec_parseStructured text =
     (case JSON_parse text of
        Some v \<Rightarrow> Inr v
      | None \<Rightarrow>
          (case Option.bind (fence_match text) (\<lambda>body. JSON_parse (js_trim body)) of
             Some v \<Rightarrow> Inr v
           | None \<Rightarrow>
               (case Option.bind (first_balanced_object text) JSON_parse of
                  Some v \<Rightarrow> Inr v
                | None \<Rightarrow> Inl CouldNotParseJson)))"

text \<open>Examples: a reply with a fenced block, and the response that holds a given text.\<close>

definition fenced_reply :: string where
  \<open>fenced_reply = ''Sure: ```json {"a": true} ``` done''\<close>

definition reply :: "string \<Rightarrow> api_response" where
  "reply text =
     \<lparr>content = [(''text'', Some text)], usage_input_tokens = Some 12,
      usage_output_tokens = Some 3\<rparr>"

section \<open>Isolation manager and cluster kill\<close>

text \<open>
  The sources have the tests of the isolation manager and of the orchestrator, not
  \<^verbatim>\<open>src/isolation-manager.js\<close> and \<^verbatim>\<open>src/orchestrator.js\<close> themselves. Every
  definition of this section is therefore modelled from the specification (sections 3,
  4.1, 4.4 and 6), with the names the spec and the tests use.
\<close>

text \<open>
  Modelled from the spec: cluster ids and paths are strings (\<^verbatim>\<open>isolation-manager.js\<close> is missing).
\<close>

type_synonym cluster_id = string

type_synonym path = string

text \<open>
  Modelled from the spec: the \<^verbatim>\<open>Worktree{path, branch, repoRoot}\<close> isolation record returned by the missing \<^verbatim>\<open>createWorktree\<close>.
\<close>

record WorktreeInfo =
  wt_path :: path
  wt_branch :: string
  wt_repoRoot :: path

text \<open>
  Modelled from the spec: what the missing isolation manager changes in a git repository: its branches and its worktree registrations.
\<close>

record git_repo =
  branches :: "string set"
  registrations :: "path set"

text \<open>
  Modelled from the spec: the state the missing isolation manager acts on: its records by cluster id, the directories on disk and the git repositories by root.
\<close>

record isolation =
  tmp_root :: path
  worktrees :: "cluster_id \<rightharpoonup> WorktreeInfo"
  containers :: "cluster_id \<rightharpoonup> string"
  directories :: "path set"
  repos :: "path \<rightharpoonup> git_repo"

text \<open>
  Modelled from the spec: the failure modes \<^verbatim>\<open>NotAGitRepo\<close>, \<^verbatim>\<open>GitFailure\<close> and \<^verbatim>\<open>IsolationFailed\<close> of the missing isolation manager.
\<close>

datatype isolation_error = NotAGitRepo | GitFailure | IsolationFailed

text \<open>
  Modelled from the spec: the worktree of a cluster is at \<^verbatim>\<open><tmp>/zeroshot-worktrees/<clusterId>\<close> (missing \<^verbatim>\<open>createWorktree\<close>).
\<close>

definition worktree_path :: "path \<Rightarrow> cluster_id \<Rightarrow> path" where
  "worktree_path tmp clusterId = tmp @ ''/zeroshot-worktrees/'' @ clusterId"

text \<open>
  Modelled from the spec: the branch of a cluster is \<^verbatim>\<open>zeroshot/<clusterId>\<close> (missing \<^verbatim>\<open>createWorktree\<close>).
\<close>

definition branch_name :: "cluster_id \<Rightarrow> string" where
  "branch_name clusterId = ''zeroshot/'' @ clusterId"

text \<open>
  Modelled from the spec: removing a git worktree registration from the repository at a root (part of the missing \<^verbatim>\<open>cleanupWorktree\<close>).
\<close>

definition unregister :: "path \<Rightarrow> path \<Rightarrow> (path \<rightharpoonup> git_repo) \<Rightarrow> (path \<rightharpoonup> git_repo)" where
  "unregister repoRoot p rs =
     (case rs repoRoot of
        None \<Rightarrow> rs
      | Some repo \<Rightarrow> rs(repoRoot \<mapsto> repo\<lparr>registrations := registrations repo - {p}\<rparr>))"

text \<open>
  Modelled from the spec: the missing \<^verbatim>\<open>createWorktree(clusterId, repoRoot)\<close>. Outside a git repository it fails with \<^verbatim>\<open>NotAGitRepo\<close>; a git failure is retried once and then surfaced (\<open>git_add k\<close> tells whether the attempt \<open>k\<close> succeeds); otherwise a worktree exists at the cluster's path, registered in the repository, on the cluster's new branch, replacing what was at that path.
\<close>

definition createWorktree ::
  "(nat \<Rightarrow> bool) \<Rightarrow> cluster_id \<Rightarrow> path \<Rightarrow> isolation
     \<Rightarrow> isolation_error + (WorktreeInfo \<times> isolation)" where
  "createWorktree git_add clusterId repoRoot m =
     (case repos m repoRoot of
        None \<Rightarrow> Inl NotAGitRepo
      | Some repo \<Rightarrow>
          if \<not> git_add 0 \<and> \<not> git_add 1 then Inl GitFailure
          else
            (let p = worktree_path (tmp_root m) clusterId;
                 b = branch_name clusterId;
                 info = \<lparr>wt_path = p, wt_branch = b, wt_repoRoot = repoRoot\<rparr>
             in Inr (info,
                     m\<lparr>worktrees := (worktrees m)(clusterId \<mapsto> info),
                       directories := insert p (directories m),
                       repos := (repos m)(repoRoot \<mapsto>
                                  repo\<lparr>branches := insert b (branches repo),
                                       registrations := insert p (registrations repo)\<rparr>)\<rparr>)))"

text \<open>
  Modelled from the spec: the missing \<^verbatim>\<open>cleanupWorktree(clusterId)\<close>. It removes the git worktree registration and deletes its directory; the branch is preserved; an unknown cluster id is a no-op; errors of the git tooling are swallowed, so it has no failing outcome.
\<close>

definition cleanupWorktree :: "cluster_id \<Rightarrow> isolation \<Rightarrow> isolation_error + isolation" where
  "cleanupWorktree clusterId m =
     (case worktrees m clusterId of
        None \<Rightarrow> Inr m
      | Some info \<Rightarrow>
          Inr (m\<lparr>worktrees := (worktrees m)(clusterId := None),
                 directories := directories m - {wt_path info},
                 repos := unregister (wt_repoRoot info) (wt_path info) (repos m)\<rparr>))"

text \<open>
  Modelled from the spec: the missing lookup \<^verbatim>\<open>getWorktreeInfo(clusterId)\<close>.
\<close>

definition getWorktreeInfo :: "cluster_id \<Rightarrow> isolation \<Rightarrow> WorktreeInfo option" where
  "getWorktreeInfo clusterId m = worktrees m clusterId"

text \<open>
  Modelled from the spec: the branches and the worktree registrations of the repository at a root, as \<^verbatim>\<open>git branch\<close> and \<^verbatim>\<open>git worktree list\<close> show them in the tests of the missing isolation manager.
\<close>

definition branches_of :: "isolation \<Rightarrow> path \<Rightarrow> string set" where
  "branches_of m repoRoot = (case repos m repoRoot of None \<Rightarrow> {} | Some repo \<Rightarrow> branches repo)"

definition registered :: "isolation \<Rightarrow> path \<Rightarrow> path set" where
  "registered m repoRoot =
     (case repos m repoRoot of None \<Rightarrow> {} | Some repo \<Rightarrow> registrations repo)"

text \<open>
  Modelled from the spec: the missing \<^verbatim>\<open>cleanupContainer(clusterId)\<close>, which stops and removes the container, and the missing lookup \<^verbatim>\<open>hasContainer(clusterId)\<close>.
\<close>

definition cleanupContainer :: "cluster_id \<Rightarrow> isolation \<Rightarrow> isolation_error + isolation" where
  "cleanupContainer clusterId m = Inr (m\<lparr>containers := (containers m)(clusterId := None)\<rparr>)"

definition hasContainer :: "cluster_id \<Rightarrow> isolation \<Rightarrow> bool" where
  "hasContainer clusterId m = (containers m clusterId \<noteq> None)"

text \<open>
  Modelled from the spec: the missing \<^verbatim>\<open>cleanupWorktree\<close> applied a number of times in a row, stopping at an error.
\<close>

fun cleanup_times :: "nat \<Rightarrow> cluster_id \<Rightarrow> isolation \<Rightarrow> isolation_error + isolation" where
  "cleanup_times 0 clusterId m = Inr m"
| "cleanup_times (Suc n) clusterId m =
     (case cleanupWorktree clusterId m of
        Inl e \<Rightarrow> Inl e
      | Inr m' \<Rightarrow> cleanup_times n clusterId m')"

text \<open>
  Modelled from the spec: what one install command run through the missing \<^verbatim>\<open>execInContainer\<close> gives: an exit code, or a thrown error of the exec channel.
\<close>

datatype exec_result = Exited int | ExecThrown

text \<open>
  Modelled from the spec: what the missing \<^verbatim>\<open>createContainer\<close> does while installing, in order: an install attempt (by its number), a sleep (in milliseconds), a logged warning.
\<close>

datatype install_event = Attempt nat | Sleep nat | Warn string

text \<open>
  Modelled from the spec: the missing \<^verbatim>\<open>createContainer\<close> makes up to 3 attempts, with sleeps of 2 s times a power of 2 between them.
\<close>

definition maxRetries :: nat where
  "maxRetries = 3"

definition baseDelay :: nat where
  "baseDelay = 2000"

text \<open>
  Modelled from the spec: the install loop of the missing \<^verbatim>\<open>createContainer\<close>. \<open>exec k\<close> is the outcome of the \<open>k\<close>-th install command; \<open>left\<close> counts the attempts still allowed after this one. A thrown error counts as a non-zero exit; a failed attempt that is not the last is followed by a sleep of \<open>2 * 2 ^ (attempt - 1)\<close> seconds; after the last failed attempt a warning is logged and nothing is slept.
\<close>

fun install_retry :: "(nat \<Rightarrow> exec_result) \<Rightarrow> nat \<Rightarrow> nat \<Rightarrow> install_event list" where
  "install_retry exec attempt 0 =
     (if exec attempt = Exited 0 then [Attempt attempt]
      else [Attempt attempt, Warn ''npm install failed''])"
| "install_retry exec attempt (Suc left) =
     (if exec attempt = Exited 0 then [Attempt attempt]
      else Attempt attempt # Sleep (baseDelay * 2 ^ (attempt - 1))
           # install_retry exec (Suc attempt) left)"

text \<open>
  Modelled from the spec: the missing \<^verbatim>\<open>createContainer(clusterId, {workDir, image})\<close>. \<open>launched\<close> tells whether the container could be started, \<open>has_manifest\<close> whether \<^verbatim>\<open>workDir\<close> contains a package manifest. The install is skipped without a manifest, and its failure is not fatal: the container id is returned.
\<close>

definition createContainer ::
  "bool \<Rightarrow> string \<Rightarrow> bool \<Rightarrow> (nat \<Rightarrow> exec_result) \<Rightarrow> cluster_id \<Rightarrow> isolation
     \<Rightarrow> isolation_error + (string \<times> install_event list \<times> isolation)" where
  "createContainer launched containerId has_manifest exec clusterId m =
     (if \<not> launched then Inl IsolationFailed
      else
        (let m' = m\<lparr>containers := (containers m)(clusterId \<mapsto> containerId)\<rparr>;
             trace = (if has_manifest then install_retry exec 1 (maxRetries - 1) else [])
         in Inr (containerId, trace, m')))"

text \<open>
  Modelled from the spec: the cluster states and the tagged isolation record of section 3 (\<^verbatim>\<open>orchestrator.js\<close> is missing).
\<close>

datatype cluster_state = Initializing | Running | Stopping | Stopped | Failed

datatype isolation_record =
    WorktreeIsolation WorktreeInfo
  | ContainerIsolation string
  | NoIsolation

text \<open>
  Modelled from the spec: a cluster record of the missing orchestrator, as far as \<^verbatim>\<open>kill\<close> reads it, and the orchestrator's registry with its isolation manager and the process groups it has signalled.
\<close>

record cluster =
  cl_state :: cluster_state
  cl_isolation :: isolation_record
  cl_children :: "nat list"

record orchestrator =
  clusters :: "cluster_id \<rightharpoonup> cluster"
  manager :: isolation
  signalled :: "nat list"

text \<open>
  Modelled from the spec: the cleanup of a cluster's isolation by the missing orchestrator, by the variant of the record.
\<close>

definition cleanup_isolation ::
  "cluster_id \<Rightarrow> isolation_record \<Rightarrow> isolation \<Rightarrow> isolation_error + isolation" where
  "cleanup_isolation clusterId r m =
     (case r of
        WorktreeIsolation info \<Rightarrow> cleanupWorktree clusterId m
      | ContainerIsolation containerId \<Rightarrow> cleanupContainer clusterId m
      | NoIsolation \<Rightarrow> Inr m)"

text \<open>
  Modelled from the spec: the missing \<^verbatim>\<open>kill(clusterId)\<close>: signal all child process groups, clean up the isolation, mark the cluster stopped. An unknown cluster id is a no-op.
\<close>

definition kill :: "cluster_id \<Rightarrow> orchestrator \<Rightarrow> isolation_error + orchestrator" where
  "kill clusterId orch =
     (case clusters orch clusterId of
        None \<Rightarrow> Inr orch
      | Some c \<Rightarrow>
          (case cleanup_isolation clusterId (cl_isolation c) (manager orch) of
             Inl e \<Rightarrow> Inl e
           | Inr m' \<Rightarrow>
               Inr (orch\<lparr>clusters := (clusters orch)(clusterId \<mapsto>
                                       c\<lparr>cl_state := Stopped, cl_children := []\<rparr>),
                         manager := m',
                         signalled := signalled orch @ cl_children c\<rparr>)))"

text \<open>
  Modelled from the spec: example states for the missing isolation manager: a repository at \<^verbatim>\<open>/repo\<close> with one branch, the same after \<^verbatim>\<open>createWorktree("c1", "/repo")\<close>, and an install command that throws once and then exits with code 1.
\<close>

definition empty_repo :: isolation where
  "empty_repo =
     \<lparr>tmp_root = ''/tmp'', worktrees = Map.empty, containers = Map.empty,
      directories = {''/repo''},
      repos = [''/repo'' \<mapsto> \<lparr>branches = {''main''}, registrations = {}\<rparr>]\<rparr>"

definition info_c1 :: WorktreeInfo where
  "info_c1 =
     \<lparr>wt_path = ''/tmp/zeroshot-worktrees/c1'', wt_branch = ''zeroshot/c1'',
      wt_repoRoot = ''/repo''\<rparr>"

definition with_c1 :: isolation where
  "with_c1 =
     empty_repo
       \<lparr>worktrees := [''c1'' \<mapsto> info_c1],
        directories := {''/tmp/zeroshot-worktrees/c1'', ''/repo''},
        repos := [''/repo'' \<mapsto>
                   \<lparr>branches = {''zeroshot/c1'', ''main''},
                    registrations = {''/tmp/zeroshot-worktrees/c1''}\<rparr>]\<rparr>"

definition always_fails :: "nat \<Rightarrow> exec_result" where
  "always_fails n = (if n = 1 then ExecThrown else Exited 1)"

chapter \<open>Properties\<close>

section \<open>Numbers and strings\<close>

text \<open>
  Number literals are read as doubles and written back in the shortest form: different
  spellings of one double are one value, a literal below the smallest double is zero,
  and minus zero is falsy, is written \<^verbatim>\<open>0\<close> and is the same key of a \<^verbatim>\<open>Map\<close> as
  zero.
\<close>

lemma number_to_string_examples:
  "map (map_option js_to_string \<circ> JSON_parse) [''1e2'', ''1.0'', ''-0'', ''0.1'', ''100'']
     = [Some (Inr ''100''), Some (Inr ''1''), Some (Inr ''0''), Some (Inr ''0.1''),
        Some (Inr ''100'')]"
  by code_simp

lemma rounding_examples:
  "JSON_parse ''9007199254740993'' = JSON_parse ''9007199254740992''
   \<and> JSON_parse ''1e2'' = JSON_parse ''100''
   \<and> JSON_parse ''1e-324'' = Some (JNum (Finite False 0 0))
   \<and> map_option truthy (JSON_parse ''1e-324'') = Some False
   \<and> map_option truthy (JSON_parse ''-0.0'') = Some False
   \<and> map_option (key_of 0) (JSON_parse ''-0'') = map_option (key_of 0) (JSON_parse ''0'')"
  by code_simp

text \<open>
  An escaped surrogate pair is the same string as the code point written out, and a
  repeated key of an object keeps its place and takes the later value.
\<close>

lemma string_examples:
  \<open>JSON_parse ([CHR 0x22, CHR 0x5C] @ ''ud83d'' @ [CHR 0x5C] @ ''ude00'' @ [CHR 0x22])
     = JSON_parse [CHR 0x22, CHR 0xF0, CHR 0x9F, CHR 0x98, CHR 0x80, CHR 0x22]
   \<and> JSON_parse [CHR 0x22, CHR 0xF0, CHR 0x9F, CHR 0x98, CHR 0x80, CHR 0x22]
     = Some (JStr [CHR 0xF0, CHR 0x9F, CHR 0x98, CHR 0x80])
   \<and> JSON_parse ''{"a":true,"b":null,"a":false}'' = JSON_parse ''{"a":false,"b":null}''
   \<and> JSON_parse ''{"a":false,"b":null}''
     = Some (JObj [(''a'', JBool False), (''b'', JNull)])\<close>
  by code_simp

section \<open>Level resolution\<close>

lemma getLevelMapping_absent:
  assumes "lvl \<notin> fst ` set (levels p)" and "lvl \<notin> set object_prototype_keys"
  shows "getLevelMapping p lvl = None"
proof -
  from assms(1) have "map_of (levels p) lvl = None"
    by (simp add: map_of_eq_None_iff)
  with assms(2) show ?thesis
    by (simp add: getLevelMapping_def object_literal_def)
qed

lemma getLevelMapping_inherited:
  assumes "lvl \<notin> fst ` set (levels p)" and "lvl \<in> set object_prototype_keys"
  shows "getLevelMapping p lvl = Some \<lparr>rank = None, model = None, reasoningEffort = None\<rparr>"
proof -
  from assms(1) have "map_of (levels p) lvl = None"
    by (simp add: map_of_eq_None_iff)
  with assms(2) show ?thesis
    by (simp add: getLevelMapping_def object_literal_def)
qed

lemma openai_levels: "fst ` set (levels openai_provider) = {''level1'', ''level2'', ''level3''}"
  by (auto simp: openai_provider_def)

lemma openai_level9:
  "''level9'' \<notin> fst ` set (levels openai_provider)"
  "''level9'' \<notin> set object_prototype_keys"
  by (simp_all add: openai_levels object_prototype_keys_def)

lemma openai_level2:
  "getLevelMapping openai_provider ''level2''
     = Some \<lparr>rank = Some 2, model = Some ''openai-model-main'', reasoningEffort = Some ''medium''\<rparr>"
  by (simp add: getLevelMapping_def openai_provider_def object_literal_def)

lemma openai_default: "defaultLevel openai_provider = ''level2''" "name openai_provider = ''openai''"
  by (simp_all add: openai_provider_def)

text \<open>
  Claim C10, as stated: for every level that is not in the provider's mapping,
  \<^verbatim>\<open>resolveModelSpec\<close> returns the default level's model and reasoning effort.
  This fails when the \<^verbatim>\<open>overrides\<close> argument has an entry under the requested
  level name: the override's model is returned, not the default level's.
\<close>

theorem C10_counterexample:
  "''level9'' \<notin> fst ` set (levels openai_provider)
   \<and> resolveModelSpec openai_provider ''level9''
        [''level9'' \<mapsto> \<lparr>ov_model = Some ''custom-model'', ov_reasoningEffort = None\<rparr>]
      = Inr \<lparr>ms_level = ''level9'', ms_model = Some ''custom-model'',
             ms_reasoningEffort = Some ''medium''\<rparr>
   \<and> model (the (getLevelMapping openai_provider (defaultLevel openai_provider)))
      \<noteq> Some ''custom-model''"
  by (simp add: resolveModelSpec_def getLevelMapping_absent[OF openai_level9] openai_level2
      openai_default openai_levels str_or_def)

text \<open>
  Claim C10, amended: for every level name that is neither a key of the provider's level
  mapping nor one of the names that the mapping object inherits from
  \<^verbatim>\<open>Object.prototype\<close>, \<^verbatim>\<open>resolveModelSpec\<close> takes the default level's entry as
  its base and fails only when the lookup of the default level finds nothing. The result
  reports the requested level name; its model and reasoning effort are the default
  level's, except where the overrides passed under the requested level name give a
  non-empty value, which wins. With no override under that name both are exactly the
  default level's. \<^verbatim>\<open>validateLevel\<close> rejects the same level as invalid, whatever
  the bounds.
\<close>

theorem C10_resolveModelSpec_unknown_level:
  assumes "lvl \<notin> fst ` set (levels p)" and "lvl \<notin> set object_prototype_keys"
  shows "resolveModelSpec p lvl overrides
           = (case getLevelMapping p (defaultLevel p) of
                None \<Rightarrow> Inl (UnknownLevel lvl (name p))
              | Some d \<Rightarrow>
                  Inr \<lparr>ms_level = lvl,
                       ms_model = (case overrides lvl of
                                     None \<Rightarrow> model d
                                   | Some ov \<Rightarrow> str_or (ov_model ov) (model d)),
                       ms_reasoningEffort = (case overrides lvl of
                                     None \<Rightarrow> reasoningEffort d
                                   | Some ov \<Rightarrow>
                                       str_or (ov_reasoningEffort ov) (reasoningEffort d))\<rparr>)
         \<and> validateLevel p lvl minLevel maxLevel = Inl (InvalidLevel lvl (name p))"
  using getLevelMapping_absent[OF assms]
  by (auto simp: resolveModelSpec_def validateLevel_def no_override_def str_or_def Let_def
      split: option.splits)

theorem C10_resolveModelSpec_unknown_level_witness:
  "''level9'' \<notin> fst ` set (levels openai_provider)
   \<and> ''level9'' \<notin> set object_prototype_keys
   \<and> resolveModelSpec openai_provider ''level9'' Map.empty
       = Inr \<lparr>ms_level = ''level9'', ms_model = Some ''openai-model-main'',
              ms_reasoningEffort = Some ''medium''\<rparr>
   \<and> validateLevel openai_provider ''level9'' None None
       = Inl (InvalidLevel ''level9'' ''openai'')"
  using C10_resolveModelSpec_unknown_level[OF openai_level9, of Map.empty None None]
        openai_level9 openai_level2
  by (simp add: openai_default)

text \<open>
  The names inherited from \<^verbatim>\<open>Object.prototype\<close> are set apart above. For such a
  name that is no key of the mapping, \<^verbatim>\<open>constructor\<close> for one, the lookup
  \<^verbatim>\<open>mapping[level]\<close> finds the inherited function: \<^verbatim>\<open>resolveModelSpec\<close> then
  neither falls back to the default level nor fails, its result has no model and no
  reasoning effort unless an override gives one, and \<^verbatim>\<open>validateLevel\<close> accepts the
  name when no bound is given.
\<close>

lemma inherited_level_name:
  assumes "lvl \<notin> fst ` set (levels p)" and "lvl \<in> set object_prototype_keys"
  shows "resolveModelSpec p lvl Map.empty
           = Inr \<lparr>ms_level = lvl, ms_model = None, ms_reasoningEffort = None\<rparr>"
    and "validateLevel p lvl None None = Inr lvl"
  using getLevelMapping_inherited[OF assms]
  by (simp_all add: resolveModelSpec_def validateLevel_def no_override_def str_or_def)

lemma constructor_level:
  "resolveModelSpec openai_provider ''constructor'' Map.empty
     = Inr \<lparr>ms_level = ''constructor'', ms_model = None, ms_reasoningEffort = None\<rparr>"
  "validateLevel openai_provider ''constructor'' None None = Inr ''constructor''"
  by (rule inherited_level_name; simp add: openai_levels object_prototype_keys_def)+

section \<open>Direct API selection\<close>

text \<open>
  Claim C7, as stated: \<^verbatim>\<open>shouldUseDirectApi\<close> returns true exactly when
  \<^verbatim>\<open>ANTHROPIC_API_KEY\<close> is present and the configuration opts in. The test in
  the code is \<^verbatim>\<open>!process.env.ANTHROPIC_API_KEY\<close>, which also holds for a variable
  that is present with the empty string as its value: there the function returns false
  although the variable is present and the configuration sets
  \<^verbatim>\<open>useDirectApi: true\<close>.
\<close>

theorem C7_counterexample:
  "Some [] \<noteq> (None :: string option)
   \<and> useDirectApi \<lparr>useDirectApi = JBool True, role = JStr ''conductor'',
                      outputFormat = JStr ''json'', jsonSchema = JObj []\<rparr> = JBool True
   \<and> \<not> shouldUseDirectApi (Some [])
          \<lparr>useDirectApi = JBool True, role = JStr ''conductor'',
           outputFormat = JStr ''json'', jsonSchema = JObj []\<rparr>"
  by (simp add: shouldUseDirectApi_def)

text \<open>
  Claim C7, amended: \<^verbatim>\<open>shouldUseDirectApi\<close> returns true exactly when
  \<^verbatim>\<open>ANTHROPIC_API_KEY\<close> is set to a non-empty value and either the configuration
  has \<^verbatim>\<open>useDirectApi\<close> strictly equal to \<^verbatim>\<open>true\<close>, or
  \<^verbatim>\<open>useDirectApi\<close> is not strictly \<^verbatim>\<open>false\<close> and the role is
  \<^verbatim>\<open>conductor\<close>, the output format is \<^verbatim>\<open>json\<close> and the JSON schema is
  truthy. In every other case, in particular when the variable is unset or empty, it
  returns false.
\<close>

theorem C7_shouldUseDirectApi_iff:
  "shouldUseDirectApi apiKey cfg
     = ((\<exists>k. apiKey = Some k \<and> k \<noteq> [])
        \<and> (useDirectApi cfg = JBool True
           \<or> (useDirectApi cfg \<noteq> JBool False
              \<and> role cfg = JStr ''conductor''
              \<and> outputFormat cfg = JStr ''json''
              \<and> truthy (jsonSchema cfg))))"
  by (cases apiKey) (auto simp: shouldUseDirectApi_def)

theorem C7_shouldUseDirectApi_iff_witness:
  "shouldUseDirectApi (Some ''sk-test'')
     \<lparr>useDirectApi = JUndefined, role = JStr ''conductor'',
      outputFormat = JStr ''json'', jsonSchema = JObj [(''type'', JStr ''object'')]\<rparr>
   \<and> \<not> shouldUseDirectApi None
     \<lparr>useDirectApi = JBool True, role = JStr ''conductor'',
      outputFormat = JStr ''json'', jsonSchema = JObj [(''type'', JStr ''object'')]\<rparr>
   \<and> \<not> shouldUseDirectApi (Some ''sk-test'')
     \<lparr>useDirectApi = JBool False, role = JStr ''conductor'',
      outputFormat = JStr ''json'', jsonSchema = JObj [(''type'', JStr ''object'')]\<rparr>"
  using C7_shouldUseDirectApi_iff[of "Some ''sk-test''"
          "\<lparr>useDirectApi = JUndefined, role = JStr ''conductor'',
            outputFormat = JStr ''json'', jsonSchema = JObj [(''type'', JStr ''object'')]\<rparr>"]
        C7_shouldUseDirectApi_iff[of None
          "\<lparr>useDirectApi = JBool True, role = JStr ''conductor'',
            outputFormat = JStr ''json'', jsonSchema = JObj [(''type'', JStr ''object'')]\<rparr>"]
        C7_shouldUseDirectApi_iff[of "Some ''sk-test''"
          "\<lparr>useDirectApi = JBool False, role = JStr ''conductor'',
            outputFormat = JStr ''json'', jsonSchema = JObj [(''type'', JStr ''object'')]\<rparr>"]
  by simp

section \<open>Stream parser\<close>

lemma parseEvent_unknown:
  assumes "unknown_type_of line = Some ty"
  shows "parseEvent line (Some f) st
           = (case f ty (the (JSON_parse line)) st of
                (Some e, st') \<Rightarrow> (Inl e, st')
              | (None, st') \<Rightarrow> (Inr NoEvent, st'))"
  using assms
  by (auto simp: parseEvent_def unknown_type_of_def known_types_def
      split: option.splits sum.splits if_splits)

lemma parseEvent_not_unknown:
  assumes "unknown_type_of line = None"
  shows "snd (parseEvent line cb st) = st"
  using assms
  by (auto simp: parseEvent_def unknown_type_of_def known_types_def
      split: option.splits sum.splits if_splits)

lemma key_of_prim: "\<not> is_ref ty \<Longrightarrow> key_of n ty = key_of 0 ty"
  by (cases ty) simp_all

lemma key_of_ref: "is_ref ty \<Longrightarrow> key_of n ty = KRef n"
  by (cases ty) simp_all

lemma key_of_prim_not_KRef: "\<not> is_ref ty \<Longrightarrow> \<not> is_KRef (key_of n ty)"
  by (cases ty) simp_all

lemma primitive_to_string: "\<not> is_ref ty \<Longrightarrow> \<exists>s. js_to_string ty = Inr s"
  by (cases ty) simp_all

lemma unknown_key_iff:
  "(unknown_key line = Some k)
     = (\<exists>ty. unknown_type_of line = Some ty \<and> \<not> is_ref ty \<and> k = key_of 0 ty)"
  by (auto simp: unknown_key_def split: option.splits)

text \<open>One call of \<^verbatim>\<open>_logUnknown\<close> with a primitive type.\<close>

lemma logUnknown_primitive:
  assumes "\<not> is_ref ty"
  shows "logUnknown ty (this, p)
           = (None,
              if 5 \<le> count_of this (key_of 0 ty) then (this, p)
              else (this\<lparr>unknownEventCounts :=
                            (unknownEventCounts this)
                              (key_of 0 ty \<mapsto> count_of this (key_of 0 ty) + 1)\<rparr>,
                    p\<lparr>console_debug := console_debug p @ [unknown_line ty]\<rparr>))"
proof -
  from primitive_to_string[OF assms] obtain s where s: "js_to_string ty = Inr s" ..
  from key_of_prim[OF assms, of "allocated this"] assms show ?thesis
    by (simp add: logUnknown_def count_of_def Let_def unknown_line_def s)
qed

text \<open>One call of \<^verbatim>\<open>_logUnknown\<close> with any type.\<close>

lemma logUnknown_effect:
  assumes "logUnknown ty (this, p) = (r, (this', p'))"
  shows "count_of this' k \<le> max 5 (count_of this k)"
    and "\<exists>extra. console_debug p' = console_debug p @ extra"
    and "is_ref ty \<Longrightarrow> \<not> is_KRef k \<Longrightarrow> count_of this' k = count_of this k"
proof -
  show "count_of this' k \<le> max 5 (count_of this k)"
    using assms
    by (auto simp: logUnknown_def count_of_def Let_def
        split: if_splits sum.splits option.splits)
  show "\<exists>extra. console_debug p' = console_debug p @ extra"
    using assms
    by (auto simp: logUnknown_def Let_def split: if_splits sum.splits option.splits)
  show "count_of this' k = count_of this k" if "is_ref ty" "\<not> is_KRef k"
  proof -
    from that have "key_of (allocated this) ty \<noteq> k"
      by (auto simp: key_of_ref)
    with assms that(1) show ?thesis
      by (auto simp: logUnknown_def count_of_def Let_def
          split: if_splits sum.splits option.splits)
  qed
qed

lemma step_cases:
  assumes "OpenAIProvider_parseEvent line (this, p) = (r, (this', p'))"
  obtains (same) "unknown_type_of line = None" "this' = this" "p' = p"
        | (unknown) ty e where "unknown_type_of line = Some ty"
            "logUnknown ty (this, p) = (e, (this', p'))"
            "r = (case e of Some x \<Rightarrow> Inl x | None \<Rightarrow> Inr NoEvent)"
proof (cases "unknown_type_of line")
  case None
  from parseEvent_not_unknown[OF None, of "Some (\<lambda>ty event. logUnknown ty)" "(this, p)"] assms
  have "this' = this" "p' = p"
    by (simp_all add: OpenAIProvider_parseEvent_def)
  with None show ?thesis by (rule same)
next
  case (Some ty)
  obtain e t q where l: "logUnknown ty (this, p) = (e, (t, q))"
    by (metis prod.exhaust)
  from parseEvent_unknown[OF Some, of "\<lambda>ty event. logUnknown ty" "(this, p)"] assms l
  have "this' = t" "p' = q" "r = (case e of Some x \<Rightarrow> Inl x | None \<Rightarrow> Inr NoEvent)"
    by (auto simp: OpenAIProvider_parseEvent_def split: option.splits)
  with Some l show ?thesis by (auto intro: unknown)
qed

lemma step_effect:
  assumes "OpenAIProvider_parseEvent line (this, p) = (r, (this', p'))"
  shows "count_of this' k \<le> max 5 (count_of this k)"
    and "console_debug p' = console_debug p @ printed p p'"
proof -
  show "count_of this' k \<le> max 5 (count_of this k)"
    using assms by (cases rule: step_cases) (simp_all add: logUnknown_effect(1))
  have "\<exists>extra. console_debug p' = console_debug p @ extra"
    using assms by (cases rule: step_cases) (simp_all add: logUnknown_effect(2))
  then show "console_debug p' = console_debug p @ printed p p'"
    by (auto simp: printed_def)
qed

lemma step_known:
  assumes "OpenAIProvider_parseEvent line (this, p) = (r, (this', p'))"
    and "unknown_type_of line = None"
  shows "this' = this" and "p' = p" and "printed p p' = []"
  using assms by (cases rule: step_cases; simp add: printed_def)+

lemma step_unknown:
  assumes "unknown_type_of line = Some ty"
  shows "OpenAIProvider_parseEvent line st
           = (case logUnknown ty st of
                (Some e, st') \<Rightarrow> (Inl e, st')
              | (None, st') \<Rightarrow> (Inr NoEvent, st'))"
  using parseEvent_unknown[OF assms, of "\<lambda>ty event. logUnknown ty" st]
  by (simp add: OpenAIProvider_parseEvent_def)

lemma step_primitive_eq:
  assumes "unknown_type_of line = Some ty" and "\<not> is_ref ty"
  shows "OpenAIProvider_parseEvent line (this, p)
           = (Inr NoEvent,
              if 5 \<le> count_of this (key_of 0 ty) then (this, p)
              else (this\<lparr>unknownEventCounts :=
                            (unknownEventCounts this)
                              (key_of 0 ty \<mapsto> count_of this (key_of 0 ty) + 1)\<rparr>,
                    p\<lparr>console_debug := console_debug p @ [unknown_line ty]\<rparr>))"
  by (simp add: step_unknown[OF assms(1)] logUnknown_primitive[OF assms(2)])

lemma step_primitive:
  assumes "OpenAIProvider_parseEvent line (this, p) = (r, (this', p'))"
    and "unknown_type_of line = Some ty" and "\<not> is_ref ty"
  shows "r = Inr NoEvent
       \<and> printed p p' = (if count_of this (key_of 0 ty) < 5 then [unknown_line ty] else [])
       \<and> count_of this' (key_of 0 ty)
           = (if count_of this (key_of 0 ty) < 5
              then count_of this (key_of 0 ty) + 1 else count_of this (key_of 0 ty))
       \<and> (k \<noteq> key_of 0 ty \<longrightarrow> count_of this' k = count_of this k)"
  using assms(1)[unfolded step_primitive_eq[OF assms(2,3)]]
  by (auto simp: printed_def count_of_def split: if_splits)

lemma step_count:
  assumes "OpenAIProvider_parseEvent line (this, p) = (r, (this', p'))" and "\<not> is_KRef k"
    and "count_of this k \<le> 5"
  shows "count_of this' k
           = (if unknown_key line = Some k then min 5 (count_of this k + 1) else count_of this k)"
proof (cases "unknown_type_of line")
  case None
  with step_known[OF assms(1) None] show ?thesis
    by (simp add: unknown_key_def)
next
  case (Some ty)
  show ?thesis
  proof (cases "is_ref ty")
    case True
    from assms(1) obtain e where "logUnknown ty (this, p) = (e, (this', p'))"
      using Some by (cases rule: step_cases) auto
    from logUnknown_effect(3)[OF this True assms(2)] Some True show ?thesis
      by (simp add: unknown_key_def)
  next
    case False
    from step_primitive[OF assms(1) Some False, of k] assms(3) Some False show ?thesis
      by (cases "k = key_of 0 ty") (auto simp: unknown_key_def)
  qed
qed

lemma feed_Cons:
  assumes "feed (line # ls) (this, p) = (rs, (this', p'))"
  obtains r t q rs' where "OpenAIProvider_parseEvent line (this, p) = (r, (t, q))"
    "feed ls (t, q) = (rs', (this', p'))" "rs = (r, printed p q) # rs'"
proof -
  obtain r t q where s: "OpenAIProvider_parseEvent line (this, p) = (r, (t, q))"
    by (metis prod.exhaust)
  obtain rs' where "feed ls (t, q) = (rs', (this', p'))" "rs = (r, printed p q) # rs'"
    using assms s by (auto split: prod.splits)
  with s show ?thesis by (rule that)
qed

lemma feed_effect:
  assumes "feed lines (this, p) = (rs, (this', p'))"
  shows "length rs = length lines
       \<and> console_debug p' = console_debug p @ concat (map snd rs)
       \<and> count_of this' k \<le> max 5 (count_of this k)"
  using assms
proof (induction lines arbitrary: this p rs)
  case Nil
  then show ?case by simp
next
  case (Cons line ls)
  from Cons.prems obtain r t q rs' where s: "OpenAIProvider_parseEvent line (this, p) = (r, (t, q))"
    and f: "feed ls (t, q) = (rs', (this', p'))" and rs: "rs = (r, printed p q) # rs'"
    by (rule feed_Cons)
  from step_effect(1)[OF s, of k] step_effect(2)[OF s] Cons.IH[OF f] rs show ?case
    by auto
qed

lemma feed_count:
  assumes "feed lines (this, p) = (rs, (this', p'))" and "\<not> is_KRef k"
    and "count_of this k \<le> 5"
  shows "count_of this' k = min 5 (count_of this k + occurrences k lines)
       \<and> emissions k lines rs = min 5 (count_of this k + occurrences k lines) - count_of this k"
  using assms
proof (induction lines arbitrary: this p rs)
  case Nil
  then show ?case by (simp add: occurrences_def emissions_def)
next
  case (Cons line ls)
  from Cons.prems(1) obtain r t q rs' where
    s: "OpenAIProvider_parseEvent line (this, p) = (r, (t, q))"
    and f: "feed ls (t, q) = (rs', (this', p'))" and rs: "rs = (r, printed p q) # rs'"
    by (rule feed_Cons)
  have c: "count_of t k
             = (if unknown_key line = Some k then min 5 (count_of this k + 1) else count_of this k)"
    by (rule step_count[OF s Cons.prems(2,3)])
  then have le: "count_of t k \<le> 5"
    using Cons.prems(3) by (simp split: if_splits)
  have pr: "(printed p q \<noteq> []) = (count_of this k < 5)" if "unknown_key line = Some k"
  proof -
    from that obtain ty where ty: "unknown_type_of line = Some ty" "\<not> is_ref ty" "k = key_of 0 ty"
      by (auto simp: unknown_key_iff)
    from step_primitive[OF s ty(1,2), of k] ty(3) show ?thesis by simp
  qed
  have o: "occurrences k (line # ls)
             = (if unknown_key line = Some k then 1 else 0) + occurrences k ls"
    by (simp add: occurrences_def)
  have e: "emissions k (line # ls) rs
             = (if unknown_key line = Some k \<and> count_of this k < 5 then 1 else 0)
               + emissions k ls rs'"
    using pr by (auto simp: emissions_def rs)
  from Cons.IH[OF f Cons.prems(2) le] c o e Cons.prems(3) show ?case
    by (auto split: if_splits)
qed

lemma feed_nth_known:
  assumes "feed lines (this, p) = (rs, (this', p'))" and "i < length lines"
    and "unknown_type_of (lines ! i) = None"
  shows "snd (rs ! i) = []"
  using assms
proof (induction lines arbitrary: this p rs i)
  case Nil
  then show ?case by simp
next
  case (Cons line ls)
  from Cons.prems(1) obtain r t q rs' where
    s: "OpenAIProvider_parseEvent line (this, p) = (r, (t, q))"
    and f: "feed ls (t, q) = (rs', (this', p'))" and rs: "rs = (r, printed p q) # rs'"
    by (rule feed_Cons)
  show ?case
  proof (cases i)
    case 0
    with Cons.prems(3) step_known(3)[OF s] rs show ?thesis by simp
  next
    case (Suc j)
    with Cons.prems(2,3) Cons.IH[OF f, of j] rs show ?thesis by simp
  qed
qed

lemma feed_nth_primitive:
  assumes "feed lines (this, p) = (rs, (this', p'))" and "i < length lines"
    and "unknown_type_of (lines ! i) = Some ty" and "\<not> is_ref ty"
    and "count_of this (key_of 0 ty) \<le> 5"
  shows "rs ! i
           = (Inr NoEvent,
              if count_of this (key_of 0 ty) + occurrences (key_of 0 ty) (take i lines) < 5
              then [unknown_line ty] else [])"
  using assms
proof (induction lines arbitrary: this p rs i)
  case Nil
  then show ?case by simp
next
  case (Cons line ls)
  from Cons.prems(1) obtain r t q rs' where
    s: "OpenAIProvider_parseEvent line (this, p) = (r, (t, q))"
    and f: "feed ls (t, q) = (rs', (this', p'))" and rs: "rs = (r, printed p q) # rs'"
    by (rule feed_Cons)
  let ?k = "key_of 0 ty"
  have nk: "\<not> is_KRef ?k"
    using Cons.prems(4) by (rule key_of_prim_not_KRef)
  show ?case
  proof (cases i)
    case 0
    with Cons.prems(3) have ty: "unknown_type_of line = Some ty" by simp
    from step_primitive[OF s ty Cons.prems(4), of "key_of 0 ty"] rs 0 show ?thesis
      by (simp add: occurrences_def)
  next
    case (Suc j)
    have c: "count_of t ?k
               = (if unknown_key line = Some ?k then min 5 (count_of this ?k + 1)
                  else count_of this ?k)"
      by (rule step_count[OF s nk Cons.prems(5)])
    then have le: "count_of t ?k \<le> 5"
      using Cons.prems(5) by (simp split: if_splits)
    have j: "j < length ls" "unknown_type_of (ls ! j) = Some ty"
      using Cons.prems(2,3) Suc by simp_all
    have o: "occurrences ?k (take i (line # ls))
               = (if unknown_key line = Some ?k then 1 else 0) + occurrences ?k (take j ls)"
      using Suc by (simp add: occurrences_def)
    from Cons.IH[OF f j Cons.prems(4) le] c o rs Suc Cons.prems(5) show ?thesis
      by (auto split: if_splits)
  qed
qed

lemma parseLines_unparseable:
  "list_all (\<lambda>l. JSON_parse l = None) ls \<Longrightarrow> parseLines ls onUnknown st = (Inr [], st)"
  by (induction ls) (simp_all add: parseEvent_def)

text \<open>
  A line that is not valid JSON (the empty line and a truncated line among them) is
  answered with \<^verbatim>\<open>null\<close>: \<^verbatim>\<open>parseEvent\<close> does not raise, calls no callback and
  changes no state, with or without an \<^verbatim>\<open>onUnknown\<close> callback and also through
  \<^verbatim>\<open>OpenAIProvider.parseEvent\<close>; \<^verbatim>\<open>safeJsonParse\<close> returns its fallback on every
  string that is not valid JSON; and \<^verbatim>\<open>parseChunk\<close> on a chunk all of whose lines are
  not valid JSON returns no events.
\<close>

lemma invalid_json_lines:
  assumes "JSON_parse line = None"
    and "list_all (\<lambda>l. JSON_parse l = None) (js_split (CHR 0x0A) chunk)"
  shows "parseEvent line onUnknown st = (Inr NoEvent, st)"
    and "OpenAIProvider_parseEvent line pst = (Inr NoEvent, pst)"
    and "safeJsonParse (JStr line) fallback = fallback"
    and "parseChunk chunk onUnknown st = (Inr [], st)"
  using assms
  by (simp_all add: parseEvent_def OpenAIProvider_parseEvent_def safeJsonParse_def
      parseChunk_def parseLines_unparseable)

lemma truncated_line: \<open>JSON_parse ''{"type":"item.cre'' = None\<close>
  by code_simp

lemma empty_line: "JSON_parse [] = None"
  by (simp add: JSON_parse_def)

text \<open>
  Claim C9 says that \<^verbatim>\<open>parseEvent\<close> is total on arbitrary input lines and that no
  line of the stream can crash the parser. The \<^verbatim>\<open>try\<close> of \<^verbatim>\<open>parseEvent\<close> covers
  \<^verbatim>\<open>JSON.parse\<close> only: \<^verbatim>\<open>event.type\<close> and, in \<^verbatim>\<open>parseItem\<close>,
  \<^verbatim>\<open>item.type\<close> are read outside it. So the line \<^verbatim>\<open>null\<close>, which is valid JSON,
  and an \<^verbatim>\<open>item.created\<close> event that has no item raise a \<^verbatim>\<open>TypeError\<close>, from
  \<^verbatim>\<open>parseEvent\<close>, from \<^verbatim>\<open>OpenAIProvider.parseEvent\<close> and from \<^verbatim>\<open>parseChunk\<close>
  on a chunk that holds such a line.
\<close>

theorem C9_null_line_raises:
  \<open>JSON_parse ''null'' = Some JNull
   \<and> fst (parseEvent ''null'' None ()) = Inl TypeError
   \<and> fst (OpenAIProvider_parseEvent ''null'' (new_OpenAIProvider, new_process)) = Inl TypeError
   \<and> fst (parseChunk (''{"type":"thread.started"}'' @ [CHR 0x0A] @ ''null'') None ())
       = Inl TypeError
   \<and> fst (parseEvent ''{"type":"item.created"}'' None ()) = Inl TypeError\<close>
  by code_simp

text \<open>
  Claim C8, amended: for every stream of stdout lines that one
  \<^verbatim>\<open>OpenAIProvider\<close> instance parses from its construction on, a line whose event
  type is unknown and is a primitive value (a string, a number, a boolean,
  \<^verbatim>\<open>null\<close> or missing) yields no neutral event (\<^verbatim>\<open>null\<close>) and is counted under
  its type in that instance. The call writes the debug line of the type when fewer than
  5 earlier lines of the stream had that type, and nothing otherwise, so the instance
  writes exactly \<open>min 5 n\<close> debug lines for a type that \<open>n\<close> lines have; the count
  of the type is that number too, and no count ever exceeds 5. A line that is not valid
  JSON or has a known type writes nothing, and the console holds only what the calls
  wrote.
\<close>

theorem C8_unknown_events_per_instance:
  assumes "feed lines (new_OpenAIProvider, p) = (rs, (this', p'))"
  shows "length rs = length lines
       \<and> console_debug p' = console_debug p @ concat (map snd rs)
       \<and> (\<forall>i<length lines. \<forall>ty.
            unknown_type_of (lines ! i) = Some ty \<and> \<not> is_ref ty \<longrightarrow>
              rs ! i = (Inr NoEvent,
                        if occurrences (key_of 0 ty) (take i lines) < 5
                        then [unknown_line ty] else []))
       \<and> (\<forall>i<length lines. unknown_type_of (lines ! i) = None \<longrightarrow> snd (rs ! i) = [])
       \<and> (\<forall>k. count_of this' k \<le> 5)
       \<and> (\<forall>k. \<not> is_KRef k \<longrightarrow>
              count_of this' k = min 5 (occurrences k lines)
              \<and> emissions k lines rs = min 5 (occurrences k lines))"
proof -
  have zero: "count_of new_OpenAIProvider k = 0" for k
    by (simp add: count_of_def new_OpenAIProvider_def)
  have "rs ! i = (Inr NoEvent,
                  if occurrences (key_of 0 ty) (take i lines) < 5 then [unknown_line ty] else [])"
    if "i < length lines" "unknown_type_of (lines ! i) = Some ty \<and> \<not> is_ref ty" for i ty
    using feed_nth_primitive[OF assms that(1), of ty] that(2) zero by simp
  moreover have "snd (rs ! i) = []"
    if "i < length lines" "unknown_type_of (lines ! i) = None" for i
    using assms that by (rule feed_nth_known)
  moreover have "length rs = length lines"
    "console_debug p' = console_debug p @ concat (map snd rs)"
    using feed_effect[OF assms] by simp_all
  moreover have "count_of this' k \<le> 5" for k
    using feed_effect[OF assms, of k] zero by simp
  moreover have "count_of this' k = min 5 (occurrences k lines)
                 \<and> emissions k lines rs = min 5 (occurrences k lines)"
    if "\<not> is_KRef k" for k
    using feed_count[OF assms that] zero by simp
  ultimately show ?thesis by blast
qed

lemma seven_x_results:
  "fst (feed seven_x (new_OpenAIProvider, new_process))
     = replicate 5 (Inr NoEvent, [''[openai] Unknown event type: x''])
       @ replicate 2 (Inr NoEvent, [])"
  by code_simp

lemma seven_x_console:
  "console_debug (snd (snd (feed seven_x (new_OpenAIProvider, new_process))))
     = replicate 5 ''[openai] Unknown event type: x''"
  by code_simp

lemma seven_x_occurrences: "occurrences (KStr ''x'') seven_x = 7"
  by code_simp

theorem C8_unknown_events_per_instance_witness:
  "fst (feed seven_x (new_OpenAIProvider, new_process))
     = replicate 5 (Inr NoEvent, [''[openai] Unknown event type: x''])
       @ replicate 2 (Inr NoEvent, [])
   \<and> console_debug (snd (snd (feed seven_x (new_OpenAIProvider, new_process))))
       = replicate 5 ''[openai] Unknown event type: x''
   \<and> count_of (fst (snd (feed seven_x (new_OpenAIProvider, new_process)))) (KStr ''x'') = 5
   \<and> emissions (KStr ''x'') seven_x (fst (feed seven_x (new_OpenAIProvider, new_process))) = 5"
proof -
  define F where "F = feed seven_x (new_OpenAIProvider, new_process)"
  have F: "feed seven_x (new_OpenAIProvider, new_process) = (fst F, (fst (snd F), snd (snd F)))"
    by (simp add: F_def)
  note T = C8_unknown_events_per_instance[OF F]
  from T have "\<not> is_KRef (KStr ''x'') \<longrightarrow>
      count_of (fst (snd F)) (KStr ''x'') = min 5 (occurrences (KStr ''x'') seven_x)
      \<and> emissions (KStr ''x'') seven_x (fst F) = min 5 (occurrences (KStr ''x'') seven_x)"
    by blast
  with seven_x_occurrences seven_x_results seven_x_console show ?thesis
    by (simp add: F_def)
qed

text \<open>
  Claim C8, as stated, bounds the debug lines per unknown type by 5 over the lifetime of
  the process. The counts live in the provider instance
  (\<^verbatim>\<open>this._unknownEventCounts\<close>, set in the constructor), not in the module: a second
  instance in the same process starts from zero, and after five lines of type
  \<^verbatim>\<open>x\<close> through each of two instances the console of the process holds the debug
  line of that type 10 times.
\<close>

theorem C8_counterexample:
  "console_debug (snd (snd (feed five_x (new_OpenAIProvider, new_process))))
     = replicate 5 ''[openai] Unknown event type: x''
   \<and> console_debug (snd (snd (feed five_x
        (new_OpenAIProvider, snd (snd (feed five_x (new_OpenAIProvider, new_process)))))))
     = replicate 10 ''[openai] Unknown event type: x''"
  by code_simp

text \<open>
  A type that is an array or an object is set apart above. Every line is parsed into a
  value of its own, which is a new key of the \<^verbatim>\<open>Map\<close>: the count of such a type
  never reaches 5 and every such line is logged. And the conversion of the type to a
  string for the debug line raises a \<^verbatim>\<open>TypeError\<close> for an object that has a
  property \<^verbatim>\<open>toString\<close>.
\<close>

lemma object_types:
  \<open>map snd (fst (feed (replicate 7 ''{"type":{}}'') (new_OpenAIProvider, new_process)))
     = replicate 7 [''[openai] Unknown event type: [object Object]'']
   \<and> fst (OpenAIProvider_parseEvent ''{"type":{"toString":1}}'' (new_OpenAIProvider, new_process))
       = Inl TypeError\<close>
  by code_simp

section \<open>Direct API calls\<close>

lemma split_at_first_SomeD:
  "split_at_first n h = Some (b, a) \<Longrightarrow> h = b @ n @ a"
proof (induction h arbitrary: b)
  case Nil
  then show ?case by (simp split: if_splits)
next
  case (Cons c cs)
  show ?case
  proof (cases "prefix n (c # cs)")
    case True
    with Cons.prems have "b = []" "a = drop (length n) (c # cs)" by simp_all
    with True show ?thesis by (metis append_Nil append_take_drop_id prefix_def append_eq_conv_conj)
  next
    case False
    with Cons.prems obtain b' where "split_at_first n cs = Some (b', a)" "b = c # b'"
      by (auto split: option.splits)
    with Cons.IH show ?thesis by simp
  qed
qed

lemma split_at_first_SomeI:
  assumes "n \<noteq> []" and "\<not> sublist n (b @ butlast n)"
  shows "split_at_first n (b @ n @ a) = Some (b, a)"
  using assms(2)
proof (induction b)
  case Nil
  with assms(1) show ?case by (cases n) simp_all
next
  case (Cons c b)
  have "\<not> prefix n (c # b @ n @ a)"
  proof
    assume p: "prefix n (c # b @ n @ a)"
    have "prefix (c # b @ butlast n) (c # b @ n @ a)"
      using assms(1) by (metis Cons_prefix_Cons append_butlast_last_id prefix_def append.assoc same_prefix_prefix)
    moreover have "length n \<le> length (c # b @ butlast n)" by simp
    ultimately have "prefix n (c # b @ butlast n)"
      using p by (metis prefix_length_prefix)
    then have "sublist n ((c # b) @ butlast n)" by (simp add: prefix_imp_sublist)
    with Cons.prems show False by simp
  qed
  moreover have "\<not> sublist n (b @ butlast n)"
    using Cons.prems by (metis append_Cons sublist_Cons_right)
  ultimately show ?case using Cons.IH by simp
qed

lemma object_match_SomeD:
  assumes "object_match raw = Some s"
  shows "\<exists>pre mid post. raw = pre @ s @ post \<and> s = CHR ''{'' # mid @ [CHR ''}'']"
proof -
  define fb where "fb = dropWhile (\<lambda>c. c \<noteq> CHR ''{'') raw"
  define d where "d = dropWhile (\<lambda>c. c \<noteq> CHR ''}'') (rev fb)"
  from assms have s: "s = rev d" and ne: "d \<noteq> []"
    by (auto simp: object_match_def Let_def fb_def d_def split: if_splits)
  have raw: "raw = takeWhile (\<lambda>c. c \<noteq> CHR ''{'') raw @ fb"
    by (simp add: fb_def)
  have "rev fb = takeWhile (\<lambda>c. c \<noteq> CHR ''}'') (rev fb) @ d"
    by (simp add: d_def)
  then have "rev (rev fb) = rev (takeWhile (\<lambda>c. c \<noteq> CHR ''}'') (rev fb) @ d)"
    by simp
  then have fb: "fb = s @ rev (takeWhile (\<lambda>c. c \<noteq> CHR ''}'') (rev fb))"
    by (simp add: s)
  have "hd d = CHR ''}''"
    using ne hd_dropWhile[of "\<lambda>c. c \<noteq> CHR ''}''" "rev fb"] by (simp add: d_def)
  then have last: "last s = CHR ''}''"
    using ne by (simp add: s last_rev)
  have "fb \<noteq> []" using fb ne s by auto
  then have "hd fb = CHR ''{''"
    using hd_dropWhile[of "\<lambda>c. c \<noteq> CHR ''{''" raw] by (simp add: fb_def)
  then have hd: "hd s = CHR ''{''"
    using fb ne s by (metis hd_append2 rev_is_Nil_conv)
  have "s \<noteq> []" using ne s by simp
  with hd obtain t where t: "s = CHR ''{'' # t"
    by (metis list.exhaust_sel)
  with last have "t \<noteq> []" by auto
  with t last have "s = CHR ''{'' # butlast t @ [CHR ''}'']"
    by (metis append_butlast_last_id last_ConsR)
  with raw fb show ?thesis by (metis append.assoc)
qed

lemma object_match_SomeI:
  assumes "CHR ''{'' \<notin> set pre" and "CHR ''}'' \<notin> set post"
  shows "object_match (pre @ CHR ''{'' # mid @ CHR ''}'' # post) = Some (CHR ''{'' # mid @ [CHR ''}''])"
proof -
  have 1: "dropWhile (\<lambda>c. c \<noteq> CHR ''{'') (pre @ CHR ''{'' # mid @ CHR ''}'' # post)
             = CHR ''{'' # mid @ CHR ''}'' # post"
    using assms(1) by (auto simp: dropWhile_append3)
  have 2: "dropWhile (\<lambda>c. c \<noteq> CHR ''}'') (rev (CHR ''{'' # mid @ CHR ''}'' # post))
             = CHR ''}'' # rev mid @ [CHR ''{'']"
    using assms(2) by (auto simp: dropWhile_append3)
  show ?thesis
    unfolding object_match_def Let_def 1 2 by simp
qed

lemma object_match_NoneI:
  assumes "\<not> (\<exists>pre mid post. raw = pre @ CHR ''{'' # mid @ CHR ''}'' # post)"
  shows "object_match raw = None"
proof (cases "object_match raw")
  case None
  then show ?thesis .
next
  case (Some s)
  from object_match_SomeD[OF Some] assms show ?thesis
    by (metis append.assoc append_Cons append_Nil)
qed

lemma fence_match_SomeI:
  assumes "\<not> sublist ''```json'' (pre @ ''```jso'')" and "\<not> sublist ''```'' (body @ ''``'')"
  shows "fence_match (pre @ ''```json'' @ body @ ''```'' @ post) = Some body"
  using split_at_first_SomeI[of "''```json''" pre "body @ ''```'' @ post"]
        split_at_first_SomeI[of "''```''" body post] assms
  by (simp add: fence_match_def)

lemma fence_match_NoneI:
  assumes "\<not> (\<exists>pre body post. raw = pre @ ''```json'' @ body @ ''```'' @ post)"
  shows "fence_match raw = None"
proof (cases "fence_match raw")
  case None
  then show ?thesis .
next
  case (Some body)
  then obtain pre rest post where "split_at_first ''```json'' raw = Some (pre, rest)"
    "split_at_first ''```'' rest = Some (body, post)"
    by (auto simp: fence_match_def split: option.splits)
  then have "raw = pre @ ''```json'' @ body @ ''```'' @ post"
    by (auto dest!: split_at_first_SomeD)
  with assms show ?thesis by blast
qed

lemma parseStructured_strict: "JSON_parse raw = Some v \<Longrightarrow> parseStructured raw = Inr v"
  by (simp add: parseStructured_def)

lemma parseStructured_fenced:
  assumes "JSON_parse raw = None" and "raw = pre @ ''```json'' @ body @ ''```'' @ post"
    and "\<not> sublist ''```json'' (pre @ ''```jso'')" and "\<not> sublist ''```'' (body @ ''``'')"
  shows "parseStructured raw
           = (case JSON_parse (js_trim body) of Some w \<Rightarrow> Inr w | None \<Rightarrow> Inl JsonSyntaxError)"
proof -
  have "fence_match raw = Some body"
    unfolding assms(2) using assms(3,4) by (rule fence_match_SomeI)
  with assms(1) show ?thesis
    by (simp add: parseStructured_def)
qed

lemma parseStructured_object:
  assumes "JSON_parse raw = None" and "\<nexists>p b q. raw = p @ ''```json'' @ b @ ''```'' @ q"
    and "raw = before @ ''{'' @ mid @ ''}'' @ after"
    and "CHR ''{'' \<notin> set before" and "CHR ''}'' \<notin> set after"
  shows "parseStructured raw
           = (case JSON_parse (''{'' @ mid @ ''}'') of
                Some w \<Rightarrow> Inr w | None \<Rightarrow> Inl JsonSyntaxError)"
proof -
  have f: "fence_match raw = None"
    using assms(2) by (rule fence_match_NoneI)
  have r: "raw = before @ CHR ''{'' # mid @ CHR ''}'' # after"
    using assms(3) by simp
  have "object_match raw = Some (''{'' @ mid @ ''}'')"
    unfolding r using object_match_SomeI[OF assms(4,5), of mid] by simp
  with assms(1) f show ?thesis
    by (simp add: parseStructured_def)
qed

lemma parseStructured_none:
  assumes "JSON_parse raw = None" and "\<nexists>p b q. raw = p @ ''```json'' @ b @ ''```'' @ q"
    and "\<nexists>p m q. raw = p @ ''{'' @ m @ ''}'' @ q"
  shows "parseStructured raw = Inl CouldNotParseJson"
proof -
  have f: "fence_match raw = None"
    using assms(2) by (rule fence_match_NoneI)
  from assms(3) have "\<nexists>p m q. raw = p @ CHR ''{'' # m @ CHR ''}'' # q"
    by simp
  then have "object_match raw = None"
    by (rule object_match_NoneI)
  with assms(1) f show ?thesis
    by (simp add: parseStructured_def)
qed

text \<open>
  With a schema, the call is the parse of the text of the response followed by the
  validation of what was parsed.
\<close>

lemma callDirectApi_resolved:
  assumes "truthy schema"
  shows "callDirectApi ajv (Resolved response) schema
           = (case parseStructured (rawResult_of response) of
                Inl f \<Rightarrow> Failure f
              | Inr w \<Rightarrow>
                  (case ajv schema of
                     None \<Rightarrow> Failure SchemaCompileError
                   | Some validate \<Rightarrow>
                       if validate w
                       then Success (Json w) (rawResult_of response)
                              (or_zero (usage_input_tokens response))
                              (or_zero (usage_output_tokens response))
                       else Failure SchemaValidationFailed))"
  using assms by (simp add: callDirectApi_def Let_def)

text \<open>
  Claim C6, as stated: the parsed result is a strict parse of the whole text; failing
  that, the parse of a fenced JSON block; failing that, the parse of the first balanced
  object of the text. The code differs twice. Its third step parses the span from the
  first \<^verbatim>\<open>{\<close> to the last \<^verbatim>\<open>}\<close> of the text, so a text with two objects
  fails where the first balanced object would parse. And when a fenced block is there
  but its content does not parse, the call fails at once: the third step is not tried.
\<close>

theorem C6_counterexample:
  \<open>parseStructured ''Result: {"a":true} and {"b":false}'' = Inl JsonSyntaxError
   \<and> spec_parseStructured ''Result: {"a":true} and {"b":false}''
       = Inr (JObj [(''a'', JBool True)])
   \<and> callDirectApi (\<lambda>schema. Some (\<lambda>v. True)) (Resolved (reply ''Result: {"a":true} and {"b":false}''))
         (JObj [(''type'', JStr ''object'')])
       = Failure JsonSyntaxError
   \<and> parseStructured ''```json oops ``` {"a":true}'' = Inl JsonSyntaxError
   \<and> spec_parseStructured ''```json oops ``` {"a":true}'' = Inr (JObj [(''a'', JBool True)])
   \<and> callDirectApi (\<lambda>schema. Some (\<lambda>v. True)) (Resolved (reply ''```json oops ``` {"a":true}''))
         (JObj [(''type'', JStr ''object'')])
       = Failure JsonSyntaxError\<close>
  by code_simp

text \<open>
  Claim C6, amended: with a JSON schema configured, the call on a response is decided
  by the text of the response in this order. When the whole text parses as JSON, what
  it parses to is validated against the schema. Otherwise, when the text has a
  \<^verbatim>\<open>```json\<close> fence closed by a later \<^verbatim>\<open>```\<close>, the content between the first
  such opening and the first closing after it is trimmed and parsed: what it parses to
  is validated, and when it does not parse the call fails. Otherwise, when the text has
  a \<^verbatim>\<open>{\<close> with a \<^verbatim>\<open>}\<close> after it, the span from the first \<^verbatim>\<open>{\<close> to the last
  \<^verbatim>\<open>}\<close> is parsed: what it parses to is validated, and when it does not parse the
  call fails. Otherwise the call fails. A validated value is the result of a successful
  call when the validator of the schema accepts it; when the validator rejects it, or
  the schema does not compile, the call fails. The call never returns the unparsed text
  as its result.
\<close>

theorem C6_fallback_chain:
  assumes "truthy schema" and "raw = rawResult_of response"
  shows "let call = callDirectApi ajv (Resolved response) schema;
             validated = (\<lambda>w. case ajv schema of
                                 None \<Rightarrow> Failure SchemaCompileError
                               | Some validate \<Rightarrow>
                                   if validate w
                                   then Success (Json w) raw
                                          (or_zero (usage_input_tokens response))
                                          (or_zero (usage_output_tokens response))
                                   else Failure SchemaValidationFailed)
         in (\<forall>v. JSON_parse raw = Some v \<longrightarrow> call = validated v)
          \<and> (\<forall>pre body post.
                JSON_parse raw = None
                \<and> raw = pre @ ''```json'' @ body @ ''```'' @ post
                \<and> \<not> sublist ''```json'' (pre @ ''```jso'') \<and> \<not> sublist ''```'' (body @ ''``'')
               \<longrightarrow> call = (case JSON_parse (js_trim body) of
                             Some w \<Rightarrow> validated w
                           | None \<Rightarrow> Failure JsonSyntaxError))
          \<and> (\<forall>before mid after.
                JSON_parse raw = None
                \<and> (\<nexists>p b q. raw = p @ ''```json'' @ b @ ''```'' @ q)
                \<and> raw = before @ ''{'' @ mid @ ''}'' @ after
                \<and> CHR ''{'' \<notin> set before \<and> CHR ''}'' \<notin> set after
               \<longrightarrow> call = (case JSON_parse (''{'' @ mid @ ''}'') of
                             Some w \<Rightarrow> validated w
                           | None \<Rightarrow> Failure JsonSyntaxError))
          \<and> (JSON_parse raw = None
                \<and> (\<nexists>p b q. raw = p @ ''```json'' @ b @ ''```'' @ q)
                \<and> (\<nexists>p m q. raw = p @ ''{'' @ m @ ''}'' @ q)
               \<longrightarrow> call = Failure CouldNotParseJson)
          \<and> (\<forall>t rr i_tok o_tok. call \<noteq> Success (Text t) rr i_tok o_tok)"
proof -
  note call = callDirectApi_resolved[OF assms(1), of ajv response, folded assms(2)]
  have 1: "callDirectApi ajv (Resolved response) schema
             = (case ajv schema of
                  None \<Rightarrow> Failure SchemaCompileError
                | Some validate \<Rightarrow>
                    if validate v
                    then Success (Json v) raw (or_zero (usage_input_tokens response))
                           (or_zero (usage_output_tokens response))
                    else Failure SchemaValidationFailed)"
    if "JSON_parse raw = Some v" for v
    by (simp add: call parseStructured_strict[OF that])
  have 2: "callDirectApi ajv (Resolved response) schema
             = (case JSON_parse (js_trim body) of
                  Some w \<Rightarrow>
                    (case ajv schema of
                       None \<Rightarrow> Failure SchemaCompileError
                     | Some validate \<Rightarrow>
                         if validate w
                         then Success (Json w) raw (or_zero (usage_input_tokens response))
                                (or_zero (usage_output_tokens response))
                         else Failure SchemaValidationFailed)
                | None \<Rightarrow> Failure JsonSyntaxError)"
    if "JSON_parse raw = None \<and> raw = pre @ ''```json'' @ body @ ''```'' @ post
        \<and> \<not> sublist ''```json'' (pre @ ''```jso'') \<and> \<not> sublist ''```'' (body @ ''``'')"
    for pre body post
  proof -
    have "parseStructured raw
            = (case JSON_parse (js_trim body) of Some w \<Rightarrow> Inr w | None \<Rightarrow> Inl JsonSyntaxError)"
      using that by (intro parseStructured_fenced[of raw pre body post]) (elim conjE, assumption)+
    then show ?thesis
      by (simp add: call split: option.splits)
  qed
  have 3: "callDirectApi ajv (Resolved response) schema
             = (case JSON_parse (''{'' @ mid @ ''}'') of
                  Some w \<Rightarrow>
                    (case ajv schema of
                       None \<Rightarrow> Failure SchemaCompileError
                     | Some validate \<Rightarrow>
                         if validate w
                         then Success (Json w) raw (or_zero (usage_input_tokens response))
                                (or_zero (usage_output_tokens response))
                         else Failure SchemaValidationFailed)
                | None \<Rightarrow> Failure JsonSyntaxError)"
    if "JSON_parse raw = None \<and> (\<nexists>p b q. raw = p @ ''```json'' @ b @ ''```'' @ q)
        \<and> raw = before @ ''{'' @ mid @ ''}'' @ after
        \<and> CHR ''{'' \<notin> set before \<and> CHR ''}'' \<notin> set after"
    for before mid after
  proof -
    have "parseStructured raw
            = (case JSON_parse (''{'' @ mid @ ''}'') of
                 Some w \<Rightarrow> Inr w | None \<Rightarrow> Inl JsonSyntaxError)"
      using that
      by (intro parseStructured_object[of raw before mid after]) (elim conjE, assumption)+
    then show ?thesis
      by (simp add: call split: option.splits)
  qed
  have 4: "callDirectApi ajv (Resolved response) schema = Failure CouldNotParseJson"
    if "JSON_parse raw = None \<and> (\<nexists>p b q. raw = p @ ''```json'' @ b @ ''```'' @ q)
        \<and> (\<nexists>p m q. raw = p @ ''{'' @ m @ ''}'' @ q)"
  proof -
    have "parseStructured raw = Inl CouldNotParseJson"
      using that by (intro parseStructured_none) (elim conjE, assumption)+
    then show ?thesis
      by (simp add: call)
  qed
  have 5: "callDirectApi ajv (Resolved response) schema \<noteq> Success (Text t) rr i_tok o_tok"
    for t rr i_tok o_tok
    by (simp add: call split: sum.splits option.splits)
  show ?thesis
    unfolding Let_def using 1 2 3 4 5 by blast
qed

lemma fenced_reply_not_json: "JSON_parse fenced_reply = None"
  by code_simp

lemma fenced_reply_split:
  \<open>fenced_reply = ''Sure: '' @ ''```json'' @ '' {"a": true} '' @ ''```'' @ '' done''\<close>
  by (simp add: fenced_reply_def)

lemma fenced_reply_first: \<open>\<not> sublist ''```json'' (''Sure: '' @ ''```jso'')\<close>
  by code_simp

lemma fenced_reply_closing: \<open>\<not> sublist ''```'' ('' {"a": true} '' @ ''``'')\<close>
  by code_simp

lemma fenced_reply_body: \<open>JSON_parse (js_trim '' {"a": true} '') = Some (JObj [(''a'', JBool True)])\<close>
  by code_simp

lemma no_brace: "CHR ''{'' \<notin> set s \<Longrightarrow> \<nexists>p m q. s = p @ ''{'' @ m @ ''}'' @ q"
  by auto

lemma no_backtick: "CHR 0x60 \<notin> set s \<Longrightarrow> \<nexists>p b q. s = p @ ''```json'' @ b @ ''```'' @ q"
  by auto

lemma plain_reply_not_json: "JSON_parse ''no json here'' = None"
  by code_simp

theorem C6_fallback_chain_witness:
  \<open>truthy (JObj [(''type'', JStr ''object'')])
   \<and> JSON_parse fenced_reply = None
   \<and> callDirectApi (\<lambda>schema. Some (\<lambda>v. js_prop v ''a'' = JBool True)) (Resolved (reply fenced_reply))
         (JObj [(''type'', JStr ''object'')])
       = Success (Json (JObj [(''a'', JBool True)])) fenced_reply 12 3
   \<and> callDirectApi (\<lambda>schema. Some (\<lambda>v. js_prop v ''a'' = JBool False)) (Resolved (reply fenced_reply))
         (JObj [(''type'', JStr ''object'')])
       = Failure SchemaValidationFailed
   \<and> callDirectApi (\<lambda>schema. Some (\<lambda>v. True)) (Resolved (reply ''no json here''))
         (JObj [(''type'', JStr ''object'')])
       = Failure CouldNotParseJson\<close>
proof -
  have raw: "rawResult_of (reply r) = r" for r
    by (simp add: rawResult_of_def reply_def)
  have t: "truthy (JObj [(''type'', JStr ''object'')])"
    by simp
  note accept = C6_fallback_chain[OF t raw[symmetric],
      of "\<lambda>schema. Some (\<lambda>v. js_prop v ''a'' = JBool True)" fenced_reply, unfolded Let_def,
      THEN conjunct2, THEN conjunct1, rule_format, of "''Sure: ''" \<open>'' {"a": true} ''\<close> "'' done''"]
  note reject = C6_fallback_chain[OF t raw[symmetric],
      of "\<lambda>schema. Some (\<lambda>v. js_prop v ''a'' = JBool False)" fenced_reply, unfolded Let_def,
      THEN conjunct2, THEN conjunct1, rule_format, of "''Sure: ''" \<open>'' {"a": true} ''\<close> "'' done''"]
  note none = C6_fallback_chain[OF t raw[symmetric],
      of "\<lambda>schema. Some (\<lambda>v. True)" "''no json here''", unfolded Let_def,
      THEN conjunct2, THEN conjunct2, THEN conjunct2, THEN conjunct1, rule_format]
  have 1: "callDirectApi (\<lambda>schema. Some (\<lambda>v. js_prop v ''a'' = JBool True))
             (Resolved (reply fenced_reply)) (JObj [(''type'', JStr ''object'')])
           = Success (Json (JObj [(''a'', JBool True)])) fenced_reply 12 3"
    using accept fenced_reply_not_json fenced_reply_split fenced_reply_first
          fenced_reply_closing fenced_reply_body
    by (simp add: reply_def or_zero_def)
  have 2: "callDirectApi (\<lambda>schema. Some (\<lambda>v. js_prop v ''a'' = JBool False))
             (Resolved (reply fenced_reply)) (JObj [(''type'', JStr ''object'')])
           = Failure SchemaValidationFailed"
    using reject fenced_reply_not_json fenced_reply_split fenced_reply_first
          fenced_reply_closing fenced_reply_body
    by (simp add: reply_def or_zero_def)
  have 3: "callDirectApi (\<lambda>schema. Some (\<lambda>v. True)) (Resolved (reply ''no json here''))
             (JObj [(''type'', JStr ''object'')])
           = Failure CouldNotParseJson"
    using none plain_reply_not_json no_brace[of "''no json here''"]
          no_backtick[of "''no json here''"]
    by simp
  from 1 2 3 t fenced_reply_not_json show ?thesis
    by blast
qed

section \<open>CLI capabilities and command builders\<close>







lemma features_of_default [simp]:
  "features_of (options\<lparr>opt_cliFeatures := Some (features_of options)\<rparr>) = features_of options"
  by (simp add: features_of_def)



lemma warnOnce_warned: "set (warned (warnOnce key message p)) = insert key (set (warned p))"
  by (auto simp: warnOnce_def)


lemma warnOnce_debug [simp]: "console_debug (warnOnce key message p) = console_debug p"
  by (simp add: warnOnce_def)



lemma provider_unfold:
  "snd (OpenAIProvider_buildCommand ctx options p)
     = (let a = opt_autoApprove options \<and> features_of options supportsAutoApprove = Some False;
            s = truthy (opt_jsonSchema options)
                  \<and> features_of options supportsOutputSchema = Some False;
            r = str_truthy (spec_reasoningEffort options)
                  \<and> features_of options supportsConfigOverride = Some False;
            p1 = (if a then warnOnce ''openai-auto-approve''
                    ''Codex CLI does not support auto-approve; continuing without bypass flag.'' p
                  else p);
            p2 = (if s then warnOnce ''openai-jsonschema''
                    ''Codex CLI does not support --output-schema; skipping schema flag.'' p1
                  else p1)
        in (if r then warnOnce ''openai-reasoning''
              ''Codex CLI does not support --config overrides; skipping reasoningEffort.'' p2
            else p2))"
  by (simp add: OpenAIProvider_buildCommand_def Let_def)



lemma provider_quiet:
  assumes "\<not> (opt_autoApprove options \<and> features_of options supportsAutoApprove = Some False)"
    and "\<not> (truthy (opt_jsonSchema options)
            \<and> features_of options supportsOutputSchema = Some False)"
    and "\<not> (str_truthy (spec_reasoningEffort options)
            \<and> features_of options supportsConfigOverride = Some False)"
  shows "snd (OpenAIProvider_buildCommand ctx options p) = p"
  unfolding provider_unfold Let_def using assms by auto


text \<open>
  Claim C4: when the help output of the provider's CLI cannot be obtained (the probe
  returns nothing, or the empty string), \<^verbatim>\<open>getCliFeatures\<close> of an instance that has
  no cached features returns an object in which every capability is true (and
  \<^verbatim>\<open>unknown\<close> is true). Whatever the probe returned, the object is cached: every
  later call returns the same object and leaves the instance as it is, without regard
  to what a probe would return then.
\<close>

theorem C4_getCliFeatures_default_and_cache:
  "(cliFeatures_cache this = None \<and> \<not> str_truthy help \<and> getCliFeatures help this = (f, this')
      \<longrightarrow> list_all (\<lambda>c. caps f c = Some True) openai_capabilities
          \<and> (\<forall>c. caps f c \<noteq> Some False) \<and> unknown f)
   \<and> (getCliFeatures help this = (f, this')
      \<longrightarrow> cliFeatures_cache this' = Some f
          \<and> (\<forall>later. getCliFeatures later this' = (f, this')))"
  by (auto simp: getCliFeatures_def detect_features_def openai_capabilities_def no_features_def
      Let_def split: option.splits if_splits)

theorem C4_getCliFeatures_default_and_cache_witness:
  "map (caps (fst (getCliFeatures None new_OpenAIProvider))) openai_capabilities
     = [Some True, Some True, Some True, Some True, Some True, Some True]
   \<and> unknown (fst (getCliFeatures None new_OpenAIProvider))
   \<and> getCliFeatures (Some ''Usage: codex'') (snd (getCliFeatures None new_OpenAIProvider))
       = (fst (getCliFeatures None new_OpenAIProvider),
          snd (getCliFeatures None new_OpenAIProvider))"
  using C4_getCliFeatures_default_and_cache[of new_OpenAIProvider None
          "fst (getCliFeatures None new_OpenAIProvider)"
          "snd (getCliFeatures None new_OpenAIProvider)"]
  by (simp add: new_OpenAIProvider_def openai_capabilities_def)




section \<open>Isolation manager and cluster kill\<close>

lemma cleanup_branches: "cleanupWorktree c m = Inr m' \<Longrightarrow> branches_of m' r = branches_of m r"
  by (auto simp: cleanupWorktree_def branches_of_def unregister_def
      split: option.splits if_splits)

lemma cleanup_total: "\<exists>m'. cleanupWorktree c m = Inr m'"
  by (simp add: cleanupWorktree_def split: option.splits)

lemma cleanup_twice:
  "cleanupWorktree c m = Inr m' \<Longrightarrow> cleanupWorktree c m' = Inr m'"
  by (auto simp: cleanupWorktree_def split: option.splits)

lemma cleanup_removes:
  assumes "worktrees m c = Some info" and "cleanupWorktree c m = Inr m'"
  shows "wt_path info \<notin> directories m'"
    and "wt_path info \<notin> registered m' (wt_repoRoot info)"
    and "getWorktreeInfo c m' = None"
  using assms
  by (auto simp: cleanupWorktree_def registered_def unregister_def getWorktreeInfo_def
      split: option.splits if_splits)

lemma create_effect:
  assumes "createWorktree git c repoRoot m0 = Inr (info, m)"
  shows "worktrees m c = Some info"
    and "wt_path info = worktree_path (tmp_root m0) c"
    and "wt_branch info = branch_name c"
    and "wt_repoRoot info = repoRoot"
    and "wt_branch info \<in> branches_of m repoRoot"
    and "wt_path info \<in> registered m repoRoot"
    and "wt_path info \<in> directories m"
  using assms
  by (auto simp: createWorktree_def Let_def branches_of_def registered_def
      split: option.splits if_splits)

text \<open>
  Claim C2: for every cluster that has a worktree isolation whose branch is in its
  source repository, \<^verbatim>\<open>cleanupWorktree\<close> succeeds; afterwards the worktree
  directory is deleted, its git worktree registration is removed and the manager has no
  record of it, while the branch is still in the repository (no branch of any
  repository is added or removed). The same holds after a \<^verbatim>\<open>kill\<close> of the
  cluster. The record that \<^verbatim>\<open>createWorktree\<close> returns has the branch
  \<^verbatim>\<open>zeroshot/<clusterId>\<close> in the repository it was given.
\<close>

theorem C2_cleanup_preserves_branch:
  assumes "worktrees m clusterId = Some info"
    and "wt_branch info \<in> branches_of m (wt_repoRoot info)"
  shows "(\<exists>m'. cleanupWorktree clusterId m = Inr m'
            \<and> wt_path info \<notin> directories m'
            \<and> wt_path info \<notin> registered m' (wt_repoRoot info)
            \<and> getWorktreeInfo clusterId m' = None
            \<and> wt_branch info \<in> branches_of m' (wt_repoRoot info)
            \<and> (\<forall>r. branches_of m' r = branches_of m r))
       \<and> (clusters orch clusterId = Some c \<and> cl_isolation c = WorktreeIsolation info
            \<and> manager orch = m
          \<longrightarrow> (\<exists>orch'. kill clusterId orch = Inr orch'
                \<and> wt_path info \<notin> directories (manager orch')
                \<and> wt_path info \<notin> registered (manager orch') (wt_repoRoot info)
                \<and> wt_branch info \<in> branches_of (manager orch') (wt_repoRoot info)
                \<and> (\<forall>r. branches_of (manager orch') r = branches_of m r)))
       \<and> (createWorktree git clusterId repoRoot m0 = Inr (info, m)
          \<longrightarrow> wt_branch info = ''zeroshot/'' @ clusterId \<and> wt_repoRoot info = repoRoot)"
proof -
  obtain m' where m': "cleanupWorktree clusterId m = Inr m'"
    using cleanup_total by blast
  have b: "branches_of m' r = branches_of m r" for r
    using m' by (rule cleanup_branches)
  have 1: "wt_path info \<notin> directories m'" "wt_path info \<notin> registered m' (wt_repoRoot info)"
    "getWorktreeInfo clusterId m' = None"
    using cleanup_removes[OF assms(1) m'] by simp_all
  have 2: "wt_branch info \<in> branches_of m' (wt_repoRoot info)"
    using assms(2) b by simp
  have k: "\<exists>orch'. kill clusterId orch = Inr orch'
                \<and> wt_path info \<notin> directories (manager orch')
                \<and> wt_path info \<notin> registered (manager orch') (wt_repoRoot info)
                \<and> wt_branch info \<in> branches_of (manager orch') (wt_repoRoot info)
                \<and> (\<forall>r. branches_of (manager orch') r = branches_of m r)"
    if "clusters orch clusterId = Some c \<and> cl_isolation c = WorktreeIsolation info
          \<and> manager orch = m"
    using that m' 1 2 b by (simp add: kill_def cleanup_isolation_def)
  have 3: "wt_branch info = ''zeroshot/'' @ clusterId \<and> wt_repoRoot info = repoRoot"
    if "createWorktree git clusterId repoRoot m0 = Inr (info, m)"
    using create_effect[OF that] by (simp add: branch_name_def)
  from m' 1 2 b k 3 show ?thesis by blast
qed

text \<open>
  Claim C3: \<^verbatim>\<open>cleanupWorktree\<close> is idempotent. For every cluster id and state it
  completes without error, and applying it again to the state it gives changes nothing;
  applying it two or more times in a row is the same as applying it once; and on a
  cluster id with no registered worktree it changes nothing and does not fail.
\<close>

theorem C3_cleanup_idempotent:
  "(\<exists>m'. cleanupWorktree clusterId m = Inr m' \<and> cleanupWorktree clusterId m' = Inr m')
   \<and> cleanup_times (Suc n) clusterId m = cleanupWorktree clusterId m
   \<and> (worktrees m clusterId = None \<longrightarrow> cleanupWorktree clusterId m = Inr m)"
proof -
  obtain m' where m': "cleanupWorktree clusterId m = Inr m'"
    using cleanup_total by blast
  have settled: "cleanup_times k clusterId m' = Inr m'" for k
    by (induction k) (simp_all add: cleanup_twice[OF m'])
  have "cleanup_times (Suc n) clusterId m = cleanupWorktree clusterId m"
    by (simp add: m' settled)
  moreover have "worktrees m clusterId = None \<longrightarrow> cleanupWorktree clusterId m = Inr m"
    by (simp add: cleanupWorktree_def)
  ultimately show ?thesis
    using m' cleanup_twice[OF m'] by blast
qed

lemma install_retry_fails:
  assumes "\<forall>n. exec n \<noteq> Exited 0"
  shows "install_retry exec 1 2
           = [Attempt 1, Sleep 2000, Attempt 2, Sleep 4000, Attempt 3, Warn ''npm install failed'']"
  using assms by (simp add: numeral_2_eq_2 baseDelay_def)

lemma install_retry_pattern:
  assumes "\<forall>n. (exec n = Exited 0) = (exec' n = Exited 0)"
  shows "install_retry exec attempt left = install_retry exec' attempt left"
  using assms by (induction left arbitrary: attempt) simp_all

text \<open>
  Claim C1: when the work directory has a package manifest and the install command
  fails every time, by a non-zero exit code or by a thrown error of the exec channel,
  \<^verbatim>\<open>createContainer\<close> makes exactly 3 install attempts, sleeps 2 seconds before
  the second and 4 seconds before the third and not after the last, then logs a warning
  and returns the container, which is registered. A thrown error is treated as a
  non-zero exit: what happens depends only on which attempts exit with code 0.
\<close>

theorem C1_install_retry_exhausted:
  assumes "\<forall>n. exec n \<noteq> Exited 0"
  shows "createContainer True containerId True exec clusterId m
           = Inr (containerId,
                  [Attempt 1, Sleep 2000, Attempt 2, Sleep 4000, Attempt 3,
                   Warn ''npm install failed''],
                  m\<lparr>containers := (containers m)(clusterId \<mapsto> containerId)\<rparr>)
       \<and> hasContainer clusterId (m\<lparr>containers := (containers m)(clusterId \<mapsto> containerId)\<rparr>)
       \<and> ((\<forall>n. (exec n = Exited 0) = (exec' n = Exited 0))
            \<longrightarrow> createContainer True containerId True exec' clusterId m
                = createContainer True containerId True exec clusterId m)"
  using install_retry_fails[OF assms] install_retry_pattern[of exec' exec 1 2]
  by (simp add: createContainer_def maxRetries_def hasContainer_def numeral_3_eq_3 numeral_2_eq_2)

theorem C1_install_retry_exhausted_witness:
  "createContainer True ''container-1'' True always_fails ''c1'' empty_repo
     = Inr (''container-1'',
            [Attempt 1, Sleep 2000, Attempt 2, Sleep 4000, Attempt 3, Warn ''npm install failed''],
            empty_repo\<lparr>containers := (containers empty_repo)(''c1'' \<mapsto> ''container-1'')\<rparr>)
   \<and> hasContainer ''c1''
         (empty_repo\<lparr>containers := (containers empty_repo)(''c1'' \<mapsto> ''container-1'')\<rparr>)
   \<and> always_fails 1 = ExecThrown \<and> always_fails 2 = Exited 1"
proof -
  have "\<forall>n. always_fails n \<noteq> Exited 0"
    by (simp add: always_fails_def)
  from C1_install_retry_exhausted[OF this, of "''container-1''" "''c1''" empty_repo always_fails]
  show ?thesis by (simp add: always_fails_def)
qed

lemma create_c1: "createWorktree (\<lambda>n. True) ''c1'' ''/repo'' empty_repo = Inr (info_c1, with_c1)"
  by (simp add: createWorktree_def empty_repo_def with_c1_def info_c1_def worktree_path_def
      branch_name_def Let_def insert_commute)

theorem C2_cleanup_preserves_branch_witness:
  "createWorktree (\<lambda>n. True) ''c1'' ''/repo'' empty_repo = Inr (info_c1, with_c1)
   \<and> (\<exists>m'. cleanupWorktree ''c1'' with_c1 = Inr m'
          \<and> ''/tmp/zeroshot-worktrees/c1'' \<notin> directories m'
          \<and> ''/tmp/zeroshot-worktrees/c1'' \<notin> registered m' ''/repo''
          \<and> ''zeroshot/c1'' \<in> branches_of m' ''/repo'')"
proof -
  have w: "worktrees with_c1 ''c1'' = Some info_c1"
    by (simp add: with_c1_def)
  have b: "wt_branch info_c1 \<in> branches_of with_c1 (wt_repoRoot info_c1)"
    by (simp add: with_c1_def info_c1_def branches_of_def)
  from C2_cleanup_preserves_branch[OF w b, THEN conjunct1] create_c1 show ?thesis
    by (auto simp: info_c1_def)
qed

theorem C3_cleanup_idempotent_witness:
  "cleanup_times (Suc (Suc (Suc 0))) ''c1'' with_c1 = cleanupWorktree ''c1'' with_c1
   \<and> worktrees with_c1 ''ghost'' = None
   \<and> cleanupWorktree ''ghost'' with_c1 = Inr with_c1"
proof -
  have g: "worktrees with_c1 ''ghost'' = None"
    by (simp add: with_c1_def)
  from C3_cleanup_idempotent[of "''c1''" with_c1 "Suc (Suc 0)"]
       C3_cleanup_idempotent[of "''ghost''" with_c1 0] g
  show ?thesis by blast
qed

end
